theory Spec2Isabelle
  imports Complex_Main "HOL-Library.Multiset"
begin

section \<open>Data model (accessibility-types.ts, stored as src/unnamed/part_004)\<close>

text \<open>
  The finding and page-result types of the scanner. A field whose source name is a HOL
  constant or an Isabelle keyword carries a suffix: \<open>id\<close> is \<open>id_rule\<close> and
  \<open>help\<close> is \<open>help_text\<close>. Of a \<open>ViolationNode\<close> only the fields the agents read
  are kept (\<open>html\<close>, \<open>target\<close>); the check lists \<open>any\<close>, \<open>all\<close>, \<open>none\<close> are never
  read by the code modelled here.
\<close>

datatype impact = minor | moderate | serious | critical

record ViolationNode =
  html :: string
  target :: "string list"

record ViolationResult =
  id_rule :: string
  impact :: impact
  description :: string
  help_text :: string
  helpUrl :: string
  nodes :: "ViolationNode list"
  tags :: "string list"

text \<open>\<open>error?: string\<close> is an optional string: \<open>None\<close> is the absent field.\<close>

record PageScanResult =
  url :: string
  timestamp :: string
  violations :: "ViolationResult list"
  passes :: "ViolationResult list"
  incomplete :: "ViolationResult list"
  inapplicable :: "ViolationResult list"
  scanDuration :: nat
  error :: "string option"

text \<open>
  JavaScript tests an optional string by truthiness: \<open>if (error)\<close> is taken for a
  string that is present and not empty.
\<close>

definition truthy :: "string option \<Rightarrow> bool" where
  "truthy e = (case e of None \<Rightarrow> False | Some s \<Rightarrow> s \<noteq> [])"

section \<open>Configuration (src/config/scan-config.js)\<close>

record decisionThresholds =
  criticalViolationsLimit :: int
  incompleteResultsLimit :: int
  complexIssuesForClaudeAnalysis :: "string list"

definition SCAN_CONFIG :: decisionThresholds where
  "SCAN_CONFIG = \<lparr> criticalViolationsLimit = 5, incompleteResultsLimit = 5,
     complexIssuesForClaudeAnalysis =
       [''color-contrast'', ''focus-order-semantics'', ''keyboard-navigation'',
        ''aria-hidden-focus'', ''visual-only-information''] \<rparr>"

datatype category = PASSED | MINOR_ISSUES | CLAUDE_NEEDED | CRITICAL

datatype priority = Low | Medium | High | Critical

section \<open>String helpers of the JavaScript runtime\<close>

text \<open>\<open>s.includes(pat)\<close>: \<open>pat\<close> occurs in \<open>s\<close> as a contiguous substring.\<close>

fun startsWith :: "string \<Rightarrow> string \<Rightarrow> bool" where
  "startsWith s [] = True"
| "startsWith [] (p # ps) = False"
| "startsWith (c # cs) (p # ps) = (c = p \<and> startsWith cs ps)"

fun str_includes :: "string \<Rightarrow> string \<Rightarrow> bool" where
  "str_includes [] pat = (pat = [])"
| "str_includes (c # cs) pat = (startsWith (c # cs) pat \<or> str_includes cs pat)"

text \<open>\<open>arr.includes(x)\<close> on an array of strings: membership.\<close>

definition arr_includes :: "string list \<Rightarrow> string \<Rightarrow> bool" where
  "arr_includes xs x = (x \<in> set xs)"

text \<open>\<open>arr.some(p)\<close> and \<open>arr.filter(p)\<close> are \<open>list_ex\<close> and \<open>filter\<close>.\<close>

text \<open>A template literal \<open>${n}\<close> of a non-negative integer: its decimal digits.\<close>

definition digit_char :: "nat \<Rightarrow> char" where
  "digit_char d = ''0123456789'' ! d"

fun showNat :: "nat \<Rightarrow> string" where
  "showNat n = (if n < 10 then [digit_char n] else showNat (n div 10) @ [digit_char (n mod 10)])"

declare showNat.simps [simp del]

text \<open>\<open>arr.join(sep)\<close>.\<close>

fun join :: "string \<Rightarrow> string list \<Rightarrow> string" where
  "join sep [] = []"
| "join sep [x] = x"
| "join sep (x # y # ys) = x @ sep @ join sep (y # ys)"

section \<open>EnhancedDecisionAgentFixed (second part of src/src/agents/decision-agent.ts)\<close>

text \<open>
  The triage engine the command-line orchestrator runs. Its decision carries every field
  of \<open>EnhancedPageDecision\<close> but \<open>estimatedEffort\<close>, whose bucket the source computes in
  binary floating point (\<open>totalNodes * 0.1\<close>); no property below reads it.
\<close>

datatype factor_type = F_violation | F_pattern | F_context | F_historical | F_heuristic

record ReasoningFactor =
  f_type :: factor_type
  f_description :: string
  weight :: real
  evidence :: "string list"
  f_impact :: "impact option"

record AlternativeDecision =
  a_decision :: category
  a_confidence :: real
  rationale :: string

record DecisionReasoning =
  decision :: category
  confidence :: real
  factors :: "ReasoningFactor list"
  contextualAnalysis :: string
  alternativeDecisions :: "AlternativeDecision list"
  learningInsights :: "string list"

record EnhancedPageDecision =
  e_url :: string
  e_category :: category
  reasoning :: DecisionReasoning
  e_reason :: string
  e_priority :: priority
  e_complexViolations :: "string list"
  e_criticalViolations :: "string list"
  adaptiveSuggestions :: "string list"
  uncertaintyFactors :: "string list"

text \<open>
  The learning memory: only \<open>patternHistory\<close> is ever read or written by this agent
  (\<open>decisionOutcomes\<close> and \<open>contextualPatterns\<close> stay empty). It is keyed by the host
  name of the page.
\<close>

record PatternOccurrence =
  p_url :: string
  p_timestamp :: string
  violationTypes :: "string list"
  p_decision :: category

type_synonym LearningMemory = "string \<rightharpoonup> PatternOccurrence list"

text \<open>
  What the agent takes from its runtime: \<open>new URL(url).hostname\<close>, which throws a
  \<open>TypeError\<close> on a string that is not a URL (\<open>None\<close> here), and the clock.
\<close>

record runtime =
  hostname :: "string \<Rightarrow> string option"
  now :: string

datatype decision_error = InvalidURL

definition getCriticalViolations :: "ViolationResult list \<Rightarrow> ViolationResult list" where
  "getCriticalViolations vs = filter (\<lambda>v. impact v = critical \<or> impact v = serious) vs"

definition getComplexViolations :: "decisionThresholds \<Rightarrow> ViolationResult list \<Rightarrow> ViolationResult list" where
  "getComplexViolations cfg vs =
     filter (\<lambda>v. list_ex (\<lambda>issue. str_includes (id_rule v) issue \<or> arr_includes (tags v) issue)
                   (complexIssuesForClaudeAnalysis cfg)) vs"

definition visualVerificationRules :: "string list" where
  "visualVerificationRules =
     [''color-contrast'', ''focus-visible'', ''focus-order-semantics'', ''keyboard-navigation'',
      ''aria-hidden-focus'', ''visual-only-information'', ''bypass'', ''landmark-one-main'',
      ''page-has-heading-one'']"

record claudeNeed =
  needed :: bool
  cn_reason :: string
  cn_confidence :: real

text \<open>
  \<open>determineClaudeNeed\<close>: six checks in order. A check that fires pushes its reason and
  raises the confidence with \<open>Math.max\<close>: \<open>pushIf\<close> is this conditional statement on the
  pair of the two variables \<open>reasons\<close> and \<open>confidence\<close> (\<open>conf\<close>).
\<close>

fun pushIf :: "bool \<Rightarrow> string \<Rightarrow> real \<Rightarrow> string list \<times> real \<Rightarrow> string list \<times> real" where
  "pushIf cond reason floor_c (reasons, conf) =
     (if cond then (reasons @ [reason], max conf floor_c) else (reasons, conf))"

definition determineClaudeNeed ::
  "decisionThresholds \<Rightarrow> ViolationResult list \<Rightarrow> ViolationResult list \<Rightarrow> ViolationResult list \<Rightarrow> claudeNeed" where
  "determineClaudeNeed cfg vs inc complexViolations =
    (let s0 = ([], 0.7);
         s1 = pushIf (length complexViolations > 0)
                (showNat (length complexViolations) @ '' complex violations requiring visual analysis'')
                0.85 s0;
         s2 = pushIf (int (length inc) > incompleteResultsLimit cfg)
                (showNat (length inc) @ '' incomplete results need verification'')
                0.8 s1;
         visualVerificationNeeded =
            filter (\<lambda>v. list_ex (\<lambda>rule. str_includes (id_rule v) rule) visualVerificationRules) vs;
         s3 = pushIf (length visualVerificationNeeded > 0)
                (showNat (length visualVerificationNeeded) @ '' violations need visual verification'')
                0.9 s2;
         focusKeyboardIssues =
            filter (\<lambda>v. str_includes (id_rule v) ''focus'' \<or> str_includes (id_rule v) ''keyboard''
                        \<or> str_includes (id_rule v) ''tabindex'') vs;
         s4 = pushIf (length focusKeyboardIssues \<ge> 2)
                (showNat (length focusKeyboardIssues) @ '' focus/keyboard navigation issues'')
                0.85 s3;
         ariaIssues = filter (\<lambda>v. str_includes (id_rule v) ''aria'') vs;
         s5 = pushIf (length ariaIssues \<ge> 3)
                (showNat (length ariaIssues) @ '' ARIA implementation issues'')
                0.8 s4;
         criticalCount = length (filter (\<lambda>v. impact v = critical \<or> impact v = serious) vs);
         s6 = pushIf (criticalCount > 0 \<and> int criticalCount < criticalViolationsLimit cfg)
                (showNat criticalCount @ '' critical/serious violations need review'')
                0.75 s5;
         (reasons, conf) = s6
     in \<lparr> needed = (length reasons > 0),
          cn_reason = (if join ''; '' reasons = [] then ''No complex issues detected'' else join ''; '' reasons),
          cn_confidence = conf \<rparr>)"

definition detectPatterns :: "ViolationResult list \<Rightarrow> string list" where
  "detectPatterns vs =
    (let formViolations = filter (\<lambda>v. str_includes (id_rule v) ''label'' \<or> str_includes (id_rule v) ''input''
                                      \<or> str_includes (id_rule v) ''form'') vs;
         patterns1 = (if length formViolations \<ge> 3
                      then [''Systematic form accessibility issues detected''] else []);
         navViolations = filter (\<lambda>v. str_includes (id_rule v) ''landmark'' \<or> str_includes (id_rule v) ''heading''
                                     \<or> str_includes (id_rule v) ''skip'') vs;
         patterns2 = (if length navViolations \<ge> 2
                      then patterns1 @ [''Page navigation and structure issues''] else patterns1);
         focusViolations = filter (\<lambda>v. str_includes (id_rule v) ''focus'' \<or> str_includes (id_rule v) ''keyboard'') vs;
         patterns3 = (if length focusViolations \<ge> 2
                      then patterns2 @ [''Focus management and keyboard navigation issues''] else patterns2)
     in patterns3)"

definition buildReasoningFactors ::
  "ViolationResult list \<Rightarrow> ViolationResult list \<Rightarrow> category \<Rightarrow> ReasoningFactor list" where
  "buildReasoningFactors vs inc cat =
    (let criticalCount = length (filter (\<lambda>v. impact v = critical \<or> impact v = serious) vs);
         factors1 = (if criticalCount > 0
                     then [\<lparr> f_type = F_violation,
                             f_description = showNat criticalCount @ '' critical/serious violations found'',
                             weight = 0.9,
                             evidence = map id_rule (filter (\<lambda>v. impact v = critical \<or> impact v = serious) vs), f_impact = None \<rparr>]
                     else []);
         factors2 = factors1 @ map (\<lambda>pat. \<lparr> f_type = F_pattern, f_description = pat, weight = 0.7, evidence = [], f_impact = None \<rparr>)
                                   (detectPatterns vs);
         factors3 = (if length inc > 0
                     then factors2 @ [\<lparr> f_type = F_context,
                             f_description = showNat (length inc) @ '' incomplete results require manual verification'',
                             weight = 0.6,
                             evidence = map id_rule inc, f_impact = None \<rparr>]
                     else factors2)
     in factors3)"

definition generateAlternatives :: "category \<Rightarrow> ViolationResult list \<Rightarrow> real \<Rightarrow> AlternativeDecision list" where
  "generateAlternatives primaryDecision vs conf =
    (let alternatives1 =
           (if primaryDecision = CRITICAL \<and> conf < 0.9
            then [\<lparr> a_decision = CLAUDE_NEEDED, a_confidence = 0.7,
                    rationale = ''Visual analysis could provide additional context for remediation'' \<rparr>]
            else []);
         alternatives2 =
           (if primaryDecision = CLAUDE_NEEDED \<and> length vs < 3
            then alternatives1 @ [\<lparr> a_decision = MINOR_ISSUES, a_confidence = 0.5,
                    rationale = ''Limited violations might be addressable without visual analysis'' \<rparr>]
            else alternatives1)
     in alternatives2)"

definition buildContextualAnalysis ::
  "ViolationResult list \<Rightarrow> ViolationResult list \<Rightarrow> ViolationResult list \<Rightarrow> string" where
  "buildContextualAnalysis vs criticalViolations complexViolations =
    (let totalElements = sum_list (map (\<lambda>v. length (nodes v)) vs);
         wcagCriteria = remdups (concat (map (\<lambda>v. filter (\<lambda>t. str_includes t ''wcag'') (tags v)) vs));
         analysis0 = ''Page has '' @ showNat (length vs) @ '' violations affecting ''
                     @ showNat totalElements @ '' elements'';
         analysis1 = (if length criticalViolations > 0
                      then analysis0 @ '', including '' @ showNat (length criticalViolations)
                           @ '' critical/serious issues''
                      else analysis0);
         analysis2 = (if length complexViolations > 0
                      then analysis1 @ '' and '' @ showNat (length complexViolations)
                           @ '' complex violations requiring visual analysis''
                      else analysis1)
     in analysis2 @ ''. Violations span '' @ showNat (length wcagCriteria) @ '' WCAG criteria.'')"

definition calculatePriority :: "ViolationResult list \<Rightarrow> priority" where
  "calculatePriority vs =
    (let criticalCount = length (filter (\<lambda>v. impact v = critical) vs);
         seriousCount = length (filter (\<lambda>v. impact v = serious) vs)
     in if criticalCount > 0 then Critical
        else if seriousCount \<ge> 3 then High
        else if seriousCount \<ge> 1 \<or> length vs \<ge> 5 then Medium
        else Low)"

definition generateSuggestions :: "ViolationResult list \<Rightarrow> category \<Rightarrow> string list" where
  "generateSuggestions vs cat =
    (let suggestions1 = (if cat = CRITICAL
                         then [''Prioritize fixing critical accessibility barriers immediately''] else []);
         autoFixable = filter (\<lambda>v. str_includes (id_rule v) ''image-alt'' \<or> str_includes (id_rule v) ''label''
                                   \<or> str_includes (id_rule v) ''html-has-lang'') vs
     in if length autoFixable > 0
        then suggestions1 @ [showNat (length autoFixable) @ '' violations can be fixed with automated tools'']
        else suggestions1)"

text \<open>
  \<open>extractInsights\<close> and \<open>updateLearningMemory\<close> parse the page URL; a string that does
  not parse makes the decision throw.
\<close>

definition extractInsights ::
  "runtime \<Rightarrow> LearningMemory \<Rightarrow> string \<Rightarrow> ViolationResult list \<Rightarrow> category \<Rightarrow> decision_error + string list" where
  "extractInsights rt mem u vs cat =
    (let insights1 = (if length vs > 10
                      then [''High violation count suggests systemic accessibility issues''] else [])
     in case hostname rt u of
          None \<Rightarrow> Inl InvalidURL
        | Some domain \<Rightarrow>
            (case mem domain of
               None \<Rightarrow> Inr insights1
             | Some history \<Rightarrow>
                 if length history > 0
                 then Inr (insights1 @ [''Domain has '' @ showNat (length history) @ '' previous scans in history''])
                 else Inr insights1))"

definition updateLearningMemory ::
  "runtime \<Rightarrow> LearningMemory \<Rightarrow> string \<Rightarrow> ViolationResult list \<Rightarrow> category \<Rightarrow> decision_error + LearningMemory" where
  "updateLearningMemory rt mem u vs cat =
    (case hostname rt u of
       None \<Rightarrow> Inl InvalidURL
     | Some domain \<Rightarrow>
         (let patternHistory = (case mem domain of None \<Rightarrow> [] | Some h \<Rightarrow> h)
          in Inr (mem(domain \<mapsto> patternHistory @
                    [\<lparr> p_url = u, p_timestamp = now rt, violationTypes = map id_rule vs, p_decision = cat \<rparr>]))))"

definition createDecision ::
  "runtime \<Rightarrow> LearningMemory \<Rightarrow> string \<Rightarrow> category \<Rightarrow> string \<Rightarrow> real \<Rightarrow> ViolationResult list \<Rightarrow>
   ViolationResult list \<Rightarrow> ViolationResult list \<Rightarrow> ViolationResult list \<Rightarrow>
   decision_error + (EnhancedPageDecision \<times> LearningMemory)" where
  "createDecision rt mem u cat rsn conf vs criticalViolations complexViolations inc =
    (let fs = buildReasoningFactors vs inc cat;
         alternatives = generateAlternatives cat vs conf;
         analysis = buildContextualAnalysis vs criticalViolations complexViolations
     in case extractInsights rt mem u vs cat of
          Inl e \<Rightarrow> Inl e
        | Inr insights \<Rightarrow>
            (case updateLearningMemory rt mem u vs cat of
               Inl e \<Rightarrow> Inl e
             | Inr mem' \<Rightarrow>
                 Inr (\<lparr> e_url = u, e_category = cat,
                        reasoning = \<lparr> decision = cat, confidence = conf, factors = fs,
                                      contextualAnalysis = analysis,
                                      alternativeDecisions = alternatives,
                                      learningInsights = insights \<rparr>,
                        e_reason = rsn,
                        e_priority = calculatePriority vs,
                        e_complexViolations = map id_rule complexViolations,
                        e_criticalViolations = map id_rule criticalViolations,
                        adaptiveSuggestions = generateSuggestions vs cat,
                        uncertaintyFactors = (if conf < 0.8
                                              then [''Confidence below 80% - review recommended''] else []) \<rparr>,
                      mem')))"

definition createErrorDecision :: "string \<Rightarrow> string \<Rightarrow> EnhancedPageDecision" where
  "createErrorDecision u err =
     \<lparr> e_url = u, e_category = CRITICAL,
       reasoning = \<lparr> decision = CRITICAL, confidence = 1.0,
                     factors = [\<lparr> f_type = F_violation, f_description = ''Scan failed: '' @ err,
                                  weight = 1.0, evidence = [err], f_impact = None \<rparr>],
                     contextualAnalysis = ''Page scan failed - manual review required'',
                     alternativeDecisions = [],
                     learningInsights = [''Scan failure prevents automated assessment''] \<rparr>,
       e_reason = ''Scan error: '' @ err,
       e_priority = Critical,
       e_complexViolations = [],
       e_criticalViolations = [''scan-error''],
       adaptiveSuggestions = [''Investigate scan failure'', ''Try manual accessibility audit''],
       uncertaintyFactors = [''Unable to determine actual accessibility status''] \<rparr>"

text \<open>
  \<open>makeDecisionWithReasoning\<close>: the error short-circuit, the critical-volume check, the
  review-needed checks, then passed or minor. The learning memory is passed in and
  returned updated.
\<close>

definition makeDecisionWithReasoning ::
  "decisionThresholds \<Rightarrow> runtime \<Rightarrow> LearningMemory \<Rightarrow> PageScanResult \<Rightarrow>
   decision_error + (EnhancedPageDecision \<times> LearningMemory)" where
  "makeDecisionWithReasoning cfg rt mem scanResult =
    (if truthy (error scanResult)
     then Inr (createErrorDecision (url scanResult) (case error scanResult of Some err \<Rightarrow> err | None \<Rightarrow> []), mem)
     else
       let vs = violations scanResult; inc = incomplete scanResult;
           criticalViolations = getCriticalViolations vs;
           complexViolations = getComplexViolations cfg vs
       in if int (length criticalViolations) \<ge> criticalViolationsLimit cfg
          then createDecision rt mem (url scanResult) CRITICAL
                 (showNat (length criticalViolations) @ '' critical/serious violations require immediate attention'')
                 0.95 vs criticalViolations complexViolations inc
          else
            let needsClaudeAnalysis = determineClaudeNeed cfg vs inc complexViolations
            in if needed needsClaudeAnalysis
               then createDecision rt mem (url scanResult) CLAUDE_NEEDED
                      (cn_reason needsClaudeAnalysis) (cn_confidence needsClaudeAnalysis)
                      vs criticalViolations complexViolations inc
               else if length vs = 0
               then createDecision rt mem (url scanResult) PASSED
                      ''No accessibility violations detected'' 1.0
                      vs criticalViolations complexViolations inc
               else createDecision rt mem (url scanResult) MINOR_ISSUES
                      (showNat (length vs) @ '' auto-fixable violations found'') 0.8
                      vs criticalViolations complexViolations inc)"


section \<open>EnhancedDecisionAgent (enhanced-decision-agent.ts, stored as src/unnamed/part_002)\<close>

text \<open>
  The earlier enhanced agent, from which the agents above take their types. Nothing in
  the repository constructs it. Its methods that bear on the properties below are
  modelled, with the prefix \<open>E_\<close> where the name is taken: \<open>createErrorDecision\<close>,
  \<open>calculateDecisionScores\<close> with \<open>selectBestDecision\<close>, and
  \<open>calculateEnhancedPriority\<close>. The scores are a \<open>Map\<close>, kept here as a list of
  entries in insertion order. The source adds and divides them in binary floating
  point, the model in the reals; the properties proved of them use only the branch that
  sets constants.
\<close>

type_synonym score_map = "(category \<times> real) list"

fun score_set :: "category \<Rightarrow> real \<Rightarrow> score_map \<Rightarrow> score_map" where
  "score_set k v [] = [(k, v)]"
| "score_set k v ((k', v') # rest) = (if k = k' then (k, v) # rest else (k', v') # score_set k v rest)"

text \<open>\<open>scores.get(k) || 0\<close>.\<close>

definition score_get :: "score_map \<Rightarrow> category \<Rightarrow> real" where
  "score_get scores k = (case map_of scores k of None \<Rightarrow> 0 | Some v \<Rightarrow> v)"

definition E_createErrorDecision :: "string \<Rightarrow> string \<Rightarrow> EnhancedPageDecision" where
  "E_createErrorDecision u err =
     \<lparr> e_url = u, e_category = CRITICAL,
       reasoning = \<lparr> decision = CRITICAL, confidence = 1.0,
                     factors = [\<lparr> f_type = F_violation, f_description = ''Scan failed with error: '' @ err,
                                  weight = 1.0, evidence = [err], f_impact = None \<rparr>],
                     contextualAnalysis = ''Page scan failed, preventing accessibility assessment'',
                     alternativeDecisions = [],
                     learningInsights = [''Scan failures require manual investigation''] \<rparr>,
       e_reason = ''Scan failed: '' @ err,
       e_priority = Critical,
       e_complexViolations = [],
       e_criticalViolations = [''scan-error''],
       adaptiveSuggestions = [''Investigate scan failure cause'', ''Consider manual accessibility review''],
       uncertaintyFactors = [''Unable to assess actual accessibility status due to scan failure''] \<rparr>"

text \<open>The body of the loop over the factors in \<open>calculateDecisionScores\<close>.\<close>

definition score_factor :: "score_map \<Rightarrow> ReasoningFactor \<Rightarrow> score_map" where
  "score_factor scores factor =
    (let w = weight factor
     in if f_type factor = F_violation \<and> str_includes (f_description factor) ''critical''
        then (let scores1 = score_set CRITICAL (score_get scores CRITICAL + w) scores
              in score_set CLAUDE_NEEDED (score_get scores1 CLAUDE_NEEDED + w * 0.5) scores1)
        else if f_type factor = F_pattern \<or> str_includes (f_description factor) ''complex''
        then (let scores1 = score_set CLAUDE_NEEDED (score_get scores CLAUDE_NEEDED + w) scores
              in score_set MINOR_ISSUES (score_get scores1 MINOR_ISSUES - w * 0.3) scores1)
        else if f_type factor = F_heuristic
        then (let scores1 = score_set CLAUDE_NEEDED (score_get scores CLAUDE_NEEDED + w * 0.7) scores
              in score_set CRITICAL (score_get scores1 CRITICAL + w * 0.3) scores1)
        else scores)"

text \<open>
  \<open>calculateDecisionScores\<close> returns the scores; it also pushes a factor onto the list
  it is given, which is returned with them.
\<close>

definition calculateDecisionScores ::
  "decisionThresholds \<Rightarrow> ReasoningFactor list \<Rightarrow> ViolationResult list \<Rightarrow> score_map \<times> ReasoningFactor list" where
  "calculateDecisionScores cfg fs vs =
    (let scores0 = [(PASSED, if length vs = 0 then 1.0 else 0.0), (MINOR_ISSUES, 0.3),
                    (CLAUDE_NEEDED, 0.2), (CRITICAL, 0.1)];
         criticalViolations = getCriticalViolations vs
     in if int (length criticalViolations) \<ge> criticalViolationsLimit cfg
        then (score_set PASSED 0.0 (score_set MINOR_ISSUES 0.0 (score_set CRITICAL 0.0
                (score_set CLAUDE_NEEDED 0.98 scores0))),
              fs @ [\<lparr> f_type = F_violation,
                      f_description = showNat (length criticalViolations)
                                      @ '' critical violations require urgent Claude analysis'',
                      weight = 1.0, evidence = [''high-priority''], f_impact = Some critical \<rparr>])
        else
          let scores1 = foldl score_factor scores0 fs;
              total_score = sum_list (map snd scores1)
          in (if total_score > 0 then map (\<lambda>(k, v). (k, v / total_score)) scores1 else scores1, fs))"

text \<open>
  \<open>selectBestDecision\<close>: the first entry with the highest score above 0, and as
  confidence twice the gap between the two highest scores, capped at 1. The map always
  has four entries.
\<close>

definition selectBestDecision :: "score_map \<Rightarrow> category \<times> real" where
  "selectBestDecision scores =
    (let (bestDecision, highestScore) =
           foldl (\<lambda>(best, highest) (d, score). if score > highest then (d, score) else (best, highest))
                 (MINOR_ISSUES, 0) scores;
         sortedScores = rev (sort (map snd scores));
         gap = (case sortedScores of a # b # rest \<Rightarrow> a - b | _ \<Rightarrow> 0)
     in (bestDecision, min (gap * 2) 1))"

definition calculateEnhancedPriority :: "ViolationResult list \<Rightarrow> real \<Rightarrow> priority" where
  "calculateEnhancedPriority vs conf =
    (let criticalCount = length (filter (\<lambda>v. impact v = critical) vs);
         seriousCount = length (filter (\<lambda>v. impact v = serious) vs)
     in if conf < 0.5 \<and> (criticalCount > 0 \<or> seriousCount > 2) then Critical
        else if criticalCount > 0 then Critical
        else if seriousCount \<ge> 3 \<or> (seriousCount \<ge> 1 \<and> length vs \<ge> 10) then High
        else if seriousCount \<ge> 1 \<or> length vs \<ge> 5 then Medium
        else Low)"

section \<open>DecisionAgent (first part of src/src/agents/decision-agent.ts)\<close>

text \<open>
  The first triage agent. \<open>main-orchestrator.ts\<close> constructs it and never calls it;
  its test suite does. Its \<open>getCriticalViolations\<close>
  and \<open>getComplexViolations\<close> are the same functions as above and its list of visual
  verification rules is the same list; the other methods differ and carry the prefix
  \<open>DA_\<close>.
\<close>

record PageDecision =
  pd_url :: string
  pd_category :: category
  pd_reason :: string
  pd_priority :: priority
  pd_estimatedEffort :: string
  pd_complexViolations :: "string list"
  pd_criticalViolations :: "string list"

definition DA_needsHumanAnalysis ::
  "decisionThresholds \<Rightarrow> ViolationResult list \<Rightarrow> ViolationResult list \<Rightarrow> bool" where
  "DA_needsHumanAnalysis cfg vs inc =
    (if int (length inc) > incompleteResultsLimit cfg then True
     else list_ex (\<lambda>v. list_ex (\<lambda>rule. str_includes (id_rule v) rule) visualVerificationRules) vs)"

definition DA_buildClaudeAnalysisReason ::
  "decisionThresholds \<Rightarrow> ViolationResult list \<Rightarrow> ViolationResult list \<Rightarrow> ViolationResult list \<Rightarrow> string" where
  "DA_buildClaudeAnalysisReason cfg vs inc complexViolations =
    (let reasons1 = (if length complexViolations > 0
                     then [showNat (length complexViolations) @ '' complex violations requiring visual analysis'']
                     else []);
         reasons2 = (if int (length inc) > incompleteResultsLimit cfg
                     then reasons1 @ [showNat (length inc) @ '' incomplete results need verification'']
                     else reasons1);
         focusIssues = filter (\<lambda>v. str_includes (id_rule v) ''focus'') vs;
         reasons3 = (if length focusIssues > 0
                     then reasons2 @ [showNat (length focusIssues) @ '' focus management issues'']
                     else reasons2);
         keyboardIssues = filter (\<lambda>v. str_includes (id_rule v) ''keyboard'') vs;
         reasons4 = (if length keyboardIssues > 0
                     then reasons3 @ [showNat (length keyboardIssues) @ '' keyboard navigation issues'']
                     else reasons3);
         ariaIssues = filter (\<lambda>v. str_includes (id_rule v) ''aria'') vs;
         reasons5 = (if length ariaIssues > 0
                     then reasons4 @ [showNat (length ariaIssues) @ '' ARIA implementation issues'']
                     else reasons4)
     in if join '', '' reasons5 = [] then ''Complex accessibility issues detected'' else join '', '' reasons5)"

definition DA_calculatePriority :: "ViolationResult list \<Rightarrow> priority" where
  "DA_calculatePriority vs =
    (let criticalCount = length (filter (\<lambda>v. impact v = critical) vs);
         seriousCount = length (filter (\<lambda>v. impact v = serious) vs);
         moderateCount = length (filter (\<lambda>v. impact v = moderate) vs)
     in if criticalCount > 0 then Critical
        else if seriousCount \<ge> 3 \<or> (seriousCount \<ge> 1 \<and> moderateCount \<ge> 5) then High
        else if seriousCount \<ge> 1 \<or> moderateCount \<ge> 3 then Medium
        else Low)"

text \<open>
  The hours are sums of multiples of 0.5 and 0.25, which binary floating point holds
  exactly, so the reals compute the same bucket.
\<close>

definition DA_estimateEffort :: "decisionThresholds \<Rightarrow> ViolationResult list \<Rightarrow> string" where
  "DA_estimateEffort cfg vs =
    (let totalNodes = sum_list (map (\<lambda>v. length (nodes v)) vs);
         complexViolations = getComplexViolations cfg vs;
         criticalViolations = getCriticalViolations vs;
         baseHours = real (length criticalViolations) * 2
                   + real (length complexViolations) * 3
                   + (real (length vs) - real (length criticalViolations) - real (length complexViolations)) * 0.5
                   + max 0 (real totalNodes - real (length vs)) * 0.25
     in if baseHours \<le> 1 then ''0.5-1 hours''
        else if baseHours \<le> 2 then ''1-2 hours''
        else if baseHours \<le> 4 then ''2-4 hours''
        else if baseHours \<le> 8 then ''4-8 hours''
        else if baseHours \<le> 16 then ''8-16 hours''
        else ''16+ hours'')"

definition makeDecision :: "decisionThresholds \<Rightarrow> PageScanResult \<Rightarrow> PageDecision" where
  "makeDecision cfg scanResult =
    (let vs = violations scanResult; inc = incomplete scanResult
     in if truthy (error scanResult)
        then \<lparr> pd_url = url scanResult, pd_category = CRITICAL,
               pd_reason = ''Scan failed: '' @ (case error scanResult of Some err \<Rightarrow> err | None \<Rightarrow> []),
               pd_priority = Critical, pd_estimatedEffort = ''2-4 hours'',
               pd_complexViolations = [], pd_criticalViolations = [''scan-error''] \<rparr>
        else
          let criticalViolations = getCriticalViolations vs
          in if int (length criticalViolations) \<ge> criticalViolationsLimit cfg
             then \<lparr> pd_url = url scanResult, pd_category = CRITICAL,
                    pd_reason = showNat (length criticalViolations) @ '' critical violations found'',
                    pd_priority = Critical, pd_estimatedEffort = DA_estimateEffort cfg vs,
                    pd_complexViolations = map id_rule (getComplexViolations cfg vs),
                    pd_criticalViolations = map id_rule criticalViolations \<rparr>
             else
               let complexViolations = getComplexViolations cfg vs;
                   needsClaudeAnalysis = DA_needsHumanAnalysis cfg vs inc
               in if needsClaudeAnalysis \<or> length complexViolations > 0
                  then \<lparr> pd_url = url scanResult, pd_category = CLAUDE_NEEDED,
                         pd_reason = DA_buildClaudeAnalysisReason cfg vs inc complexViolations,
                         pd_priority = DA_calculatePriority vs, pd_estimatedEffort = DA_estimateEffort cfg vs,
                         pd_complexViolations = map id_rule complexViolations,
                         pd_criticalViolations = map id_rule criticalViolations \<rparr>
                  else if length vs = 0
                  then \<lparr> pd_url = url scanResult, pd_category = PASSED,
                         pd_reason = ''No violations found'',
                         pd_priority = Low, pd_estimatedEffort = ''0 hours'',
                         pd_complexViolations = [], pd_criticalViolations = [] \<rparr>
                  else \<lparr> pd_url = url scanResult, pd_category = MINOR_ISSUES,
                         pd_reason = showNat (length vs) @ '' auto-fixable violations found'',
                         pd_priority = DA_calculatePriority vs, pd_estimatedEffort = DA_estimateEffort cfg vs,
                         pd_complexViolations = [], pd_criticalViolations = [] \<rparr>)"

text \<open>The four lists of \<open>DecisionResult\<close>; its field \<open>critical\<close> is \<open>critical_pages\<close> here.\<close>

record DecisionResult =
  passed :: "PageScanResult list"
  minorIssues :: "PageScanResult list"
  claudeNeeded :: "PageScanResult list"
  critical_pages :: "PageScanResult list"

definition categorizePages :: "decisionThresholds \<Rightarrow> PageScanResult list \<Rightarrow> DecisionResult" where
  "categorizePages cfg scanResults =
     foldl (\<lambda>res scanResult.
              case pd_category (makeDecision cfg scanResult) of
                PASSED \<Rightarrow> res\<lparr> passed := passed res @ [scanResult] \<rparr>
              | MINOR_ISSUES \<Rightarrow> res\<lparr> minorIssues := minorIssues res @ [scanResult] \<rparr>
              | CLAUDE_NEEDED \<Rightarrow> res\<lparr> claudeNeeded := claudeNeeded res @ [scanResult] \<rparr>
              | CRITICAL \<Rightarrow> res\<lparr> critical_pages := critical_pages res @ [scanResult] \<rparr>)
           \<lparr> passed = [], minorIssues = [], claudeNeeded = [], critical_pages = [] \<rparr>
           scanResults"


section \<open>BulkScannerAgent (src/src/agents/bulk-scanner.ts)\<close>

text \<open>
  The options as the caller gives them. A JavaScript number that is \<open>undefined\<close> or
  \<open>NaN\<close> (what \<open>parseInt\<close> returns for a non-number) is \<open>None\<close>; \<open>x || d\<close> takes the
  default \<open>d\<close> for these and for 0, and keeps every other number, negative ones included.
\<close>

record BulkScanOptions =
  o_maxWorkers :: "int option"
  o_outputDirectory :: string
  o_timeout :: "int option"
  o_retryAttempts :: "int option"

definition or_default :: "int option \<Rightarrow> int \<Rightarrow> int" where
  "or_default x d = (case x of None \<Rightarrow> d | Some v \<Rightarrow> if v = 0 then d else v)"

record options =
  maxWorkers :: int
  outputDirectory :: string
  timeout :: int
  retryAttempts :: int

record WorkerTask =
  t_url :: string
  t_index :: nat
  t_total :: nat

record WorkerResult =
  w_url :: string
  w_result :: PageScanResult
  needsClaudeAnalysis :: bool

text \<open>
  The fields of the scanner object; \<open>browser\<close> tells whether \<open>this.browser\<close> holds a
  browser (\<open>False\<close> is \<open>null\<close>).
\<close>

record agent =
  options :: options
  browser :: bool
  processedCount :: nat
  results :: "WorkerResult list"
  errors :: "string list"
  totalUrlsToProcess :: nat

text \<open>
  The world outside the scanner. The file system: whether a directory exists
  (\<open>fs.existsSync\<close>), the error with which creating it fails (\<open>fs.mkdirSync\<close>), and the
  error with which writing a file of a given name into a directory fails
  (\<open>fs.writeFileSync\<close>); \<open>None\<close> is success. The browser: the error with which it fails to
  launch, at the timeout the scanner passes, or to close. The audits: what each attempt does, by position of the URL in the
  input and attempt number, an exception with its message or the findings of axe-core
  with the measured duration. And the clock, as the string \<open>toISOString\<close> gives.
\<close>

record AxeResults =
  ax_violations :: "ViolationResult list"
  ax_passes :: "ViolationResult list"
  ax_incomplete :: "ViolationResult list"
  ax_inapplicable :: "ViolationResult list"

datatype attempt_outcome = Failed string | Scanned AxeResults nat

record scan_env =
  dir_exists :: "string \<Rightarrow> bool"
  mkdir_failure :: "string \<Rightarrow> string option"
  write_failure :: "string \<Rightarrow> string \<Rightarrow> string option"
  launch_failure :: "string option"
  close_failure :: "string option"
  audit :: "nat \<Rightarrow> int \<Rightarrow> attempt_outcome"
  clock :: string

text \<open>What the scanner throws to its caller.\<close>

datatype scan_error = MkdirFailed string | LaunchFailed string | SaveFailed string | CloseFailed string

text \<open>
  The constructor assigns the options, with their defaults, and then makes sure the
  output directory exists; an error of \<open>mkdirSync\<close> leaves it as an exception.
  \<open>fresh_agent\<close> is the object after the assignments and the field initialisers.
\<close>

definition fresh_agent :: "BulkScanOptions \<Rightarrow> agent" where
  "fresh_agent opts =
     \<lparr> options = \<lparr> maxWorkers = or_default (o_maxWorkers opts) 5,
                   outputDirectory = (if o_outputDirectory opts = [] then ''results/bulk-scan-results''
                                      else o_outputDirectory opts),
                   timeout = or_default (o_timeout opts) 30000,
                   retryAttempts = or_default (o_retryAttempts opts) 3 \<rparr>,
       browser = False, processedCount = 0, results = [], errors = [], totalUrlsToProcess = 0 \<rparr>"

definition ensureOutputDirectory :: "scan_env \<Rightarrow> options \<Rightarrow> string option" where
  "ensureOutputDirectory env opts =
     (if \<not> dir_exists env (outputDirectory opts) then mkdir_failure env (outputDirectory opts)
      else None)"

definition new_BulkScannerAgent :: "scan_env \<Rightarrow> BulkScanOptions \<Rightarrow> scan_error + agent" where
  "new_BulkScannerAgent env opts =
     (let a = fresh_agent opts
      in case ensureOutputDirectory env (options a) of
           Some e \<Rightarrow> Inl (MkdirFailed e)
         | None \<Rightarrow> Inr a)"

definition performScan :: "string \<Rightarrow> string \<Rightarrow> attempt_outcome \<Rightarrow> string + PageScanResult" where
  "performScan clk u outcome =
    (case outcome of
       Failed msg \<Rightarrow> Inl msg
     | Scanned axeResults duration \<Rightarrow>
         Inr \<lparr> url = u, timestamp = clk,
               violations = ax_violations axeResults, passes = ax_passes axeResults,
               incomplete = ax_incomplete axeResults, inapplicable = ax_inapplicable axeResults,
               scanDuration = duration, error = None \<rparr>)"

text \<open>
  \<open>scanSinglePage\<close>: the loop \<open>for (attempt = 1; attempt <= retryAttempts; attempt++)\<close>.
  The calls of \<open>delay\<close> between attempts are returned as a list of milliseconds.
\<close>

function scanAttempts ::
  "options \<Rightarrow> string \<Rightarrow> (int \<Rightarrow> attempt_outcome) \<Rightarrow> string \<Rightarrow> int \<Rightarrow> string option \<Rightarrow> int list \<Rightarrow>
   PageScanResult \<times> int list" where
  "scanAttempts opts clk resp u attempt lastError delays =
    (if attempt \<le> retryAttempts opts
     then (case performScan clk u (resp attempt) of
             Inr result \<Rightarrow> (result, delays)
           | Inl msg \<Rightarrow>
               scanAttempts opts clk resp u (attempt + 1) (Some msg)
                 (if attempt < retryAttempts opts then delays @ [2000 * attempt] else delays))
     else (\<lparr> url = u, timestamp = clk, violations = [], passes = [], incomplete = [],
             inapplicable = [], scanDuration = 0,
             error = Some (case lastError of
                             None \<Rightarrow> ''Unknown error''
                           | Some m \<Rightarrow> if m = [] then ''Unknown error'' else m) \<rparr>,
           delays))"
  by pat_completeness auto
termination
  by (relation "measure (\<lambda>(opts, clk, resp, u, attempt, lastError, delays).
                  nat (retryAttempts opts + 1 - attempt))") auto

declare scanAttempts.simps [simp del]

definition scanSinglePage ::
  "options \<Rightarrow> string \<Rightarrow> (int \<Rightarrow> attempt_outcome) \<Rightarrow> string \<Rightarrow> PageScanResult \<times> int list" where
  "scanSinglePage opts clk resp u = scanAttempts opts clk resp u 1 None []"

definition needsHumanAnalysis :: "decisionThresholds \<Rightarrow> PageScanResult \<Rightarrow> bool" where
  "needsHumanAnalysis cfg scanResult =
    (if truthy (error scanResult) then True
     else if int (length (filter (\<lambda>v. impact v = critical) (violations scanResult)))
               \<ge> criticalViolationsLimit cfg then True
     else if length (filter (\<lambda>v. arr_includes (complexIssuesForClaudeAnalysis cfg) (id_rule v))
                       (violations scanResult)) > 0 then True
     else if int (length (incomplete scanResult)) > incompleteResultsLimit cfg then True
     else list_ex (\<lambda>v. arr_includes
                          [''color-contrast'', ''focus-order-semantics'', ''keyboard-navigation'',
                           ''aria-hidden-focus'', ''visual-only-information'', ''focus-management'',
                           ''modal-focus-trap'', ''skip-link''] (id_rule v))
                  (violations scanResult))"

definition categorizeResults :: "WorkerResult list \<Rightarrow> DecisionResult" where
  "categorizeResults rs =
     foldl (\<lambda>res wr.
              let result = w_result wr in
              if truthy (error result) then res\<lparr> critical_pages := critical_pages res @ [result] \<rparr>
              else if length (violations result) = 0 then res\<lparr> passed := passed res @ [result] \<rparr>
              else if needsClaudeAnalysis wr then res\<lparr> claudeNeeded := claudeNeeded res @ [result] \<rparr>
              else if list_ex (\<lambda>v. impact v = serious \<or> impact v = critical) (violations result)
                   then res\<lparr> critical_pages := critical_pages res @ [result] \<rparr>
                   else res\<lparr> minorIssues := minorIssues res @ [result] \<rparr>)
           \<lparr> passed = [], minorIssues = [], claudeNeeded = [], critical_pages = [] \<rparr>
           rs"

subsection \<open>The worker pool\<close>

text \<open>
  \<open>processWithWorkers\<close> starts \<open>maxWorkers\<close> asynchronous workers on one shared queue.
  JavaScript runs each worker without interruption between two \<open>await\<close>s, so a worker
  takes one of three steps at a time: it finds the queue empty and ends; it shifts a task
  off the queue and starts scanning it; or its scan resolves and it pushes the result,
  counts it and sleeps 2000 ms before looking at the queue again. Which worker steps next
  depends on timing: \<open>picks\<close> chooses, at every step, among the workers that have not
  ended. The \<open>catch\<close> of \<open>createWorker\<close> is never reached, as \<open>scanSinglePage\<close> catches
  every failure of an attempt itself.
\<close>

datatype worker = Idle | Scanning WorkerTask | Finished

record pool =
  ag :: agent
  workQueue :: "WorkerTask list"
  workers :: "worker list"
  slept :: "int list"

definition worker_step :: "decisionThresholds \<Rightarrow> scan_env \<Rightarrow> nat \<Rightarrow> pool \<Rightarrow> pool" where
  "worker_step cfg env i st =
    (case workers st ! i of
       Idle \<Rightarrow>
         (case workQueue st of
            [] \<Rightarrow> st\<lparr> workers := (workers st)[i := Finished] \<rparr>
          | task # rest \<Rightarrow> st\<lparr> workQueue := rest, workers := (workers st)[i := Scanning task] \<rparr>)
     | Scanning task \<Rightarrow>
         (let (result, backoff) = scanSinglePage (options (ag st)) (clock env)
                                     (audit env (t_index task)) (t_url task);
              needs = needsHumanAnalysis cfg result
          in st\<lparr> ag := (ag st)\<lparr> results := results (ag st) @
                                   [\<lparr> w_url = t_url task, w_result = result, needsClaudeAnalysis = needs \<rparr>],
                                 processedCount := processedCount (ag st) + 1 \<rparr>,
                 slept := slept st @ backoff @ [2000],
                 workers := (workers st)[i := Idle] \<rparr>)
     | Finished \<Rightarrow> st)"

definition active :: "pool \<Rightarrow> nat list" where
  "active st = filter (\<lambda>i. workers st ! i \<noteq> Finished) [0..<length (workers st)]"

fun worker_weight :: "worker \<Rightarrow> nat" where
  "worker_weight Idle = 1"
| "worker_weight (Scanning t) = 2"
| "worker_weight Finished = 0"

definition pool_measure :: "pool \<Rightarrow> nat" where
  "pool_measure st = 2 * length (workQueue st) + sum_list (map worker_weight (workers st))"

lemma sum_list_weight_update:
  "i < length ws \<Longrightarrow>
   sum_list (map worker_weight (ws[i := w])) + worker_weight (ws ! i)
     = sum_list (map worker_weight ws) + worker_weight w"
proof (induction ws arbitrary: i)
  case Nil
  then show ?case by simp
next
  case (Cons a ws)
  then show ?case by (cases i) auto
qed

lemma worker_step_decreases:
  assumes "i \<in> set (active st)"
  shows "pool_measure (worker_step cfg env i st) < pool_measure st"
proof -
  from assms have i: "i < length (workers st)" and nf: "workers st ! i \<noteq> Finished"
    by (auto simp: active_def)
  show ?thesis
  proof (cases "workers st ! i")
    case Idle
    then show ?thesis
      using sum_list_weight_update [OF i, of Finished] sum_list_weight_update [OF i, of "Scanning t" for t]
      by (auto simp: worker_step_def pool_measure_def split: list.splits)
  next
    case (Scanning task)
    then show ?thesis
      using sum_list_weight_update [OF i, of Idle]
      by (auto simp: worker_step_def pool_measure_def split: prod.splits)
  next
    case Finished
    with nf show ?thesis by simp
  qed
qed

function run_workers :: "decisionThresholds \<Rightarrow> scan_env \<Rightarrow> (nat \<Rightarrow> nat) \<Rightarrow> nat \<Rightarrow> pool \<Rightarrow> pool" where
  "run_workers cfg env picks k st =
    (if active st = [] then st
     else run_workers cfg env picks (Suc k)
            (worker_step cfg env (active st ! (picks k mod length (active st))) st))"
  by pat_completeness auto
termination
proof (relation "measure (\<lambda>(cfg, env, picks, k, st). pool_measure st)")
  show "wf (measure (\<lambda>(cfg, env, picks, k, st). pool_measure st))" by simp
next
  fix cfg :: decisionThresholds and env :: scan_env and picks :: "nat \<Rightarrow> nat" and k :: nat and st :: pool
  assume "active st \<noteq> []"
  then have "active st ! (picks k mod length (active st)) \<in> set (active st)"
    by simp
  then show "((cfg, env, picks, Suc k, worker_step cfg env (active st ! (picks k mod length (active st))) st),
              (cfg, env, picks, k, st)) \<in> measure (\<lambda>(cfg, env, picks, k, st). pool_measure st)"
    by (simp add: worker_step_decreases)
qed

declare run_workers.simps [simp del]

definition processWithWorkers ::
  "decisionThresholds \<Rightarrow> scan_env \<Rightarrow> (nat \<Rightarrow> nat) \<Rightarrow> agent \<Rightarrow> WorkerTask list \<Rightarrow> pool" where
  "processWithWorkers cfg env picks a tasks =
     run_workers cfg env picks 0
       \<lparr> ag = a, workQueue = tasks,
         workers = replicate (nat (maxWorkers (options a))) Idle, slept = [] \<rparr>"

record BulkScanSummary =
  totalPages :: nat
  passedPages :: nat
  s_minorIssues :: nat
  claudeAnalysisNeeded :: nat
  criticalIssues :: nat
  s_errors :: nat

definition generateSummary :: "agent \<Rightarrow> nat \<Rightarrow> BulkScanSummary" where
  "generateSummary a n =
    (let categorized = categorizeResults (results a)
     in \<lparr> totalPages = n,
          passedPages = length (passed categorized),
          s_minorIssues = length (minorIssues categorized),
          claudeAnalysisNeeded = length (claudeNeeded categorized),
          criticalIssues = length (critical_pages categorized),
          s_errors = length (errors a) \<rparr>)"

text \<open>
  \<open>saveResults\<close> writes four files into the output directory, named after the clock
  with \<open>:\<close> and \<open>.\<close> replaced by \<open>-\<close>; the first write that fails throws. The contents
  written (the results, their categorization, the analysis queue and the summary) are
  read by nothing here and are left out.
\<close>

definition file_stamp :: "string \<Rightarrow> string" where
  "file_stamp stamp = map (\<lambda>c. if c = CHR '':'' \<or> c = CHR ''.'' then CHR ''-'' else c) stamp"

fun first_failure :: "string option list \<Rightarrow> string option" where
  "first_failure [] = None"
| "first_failure (None # rest) = first_failure rest"
| "first_failure (Some e # rest) = Some e"

definition saveResults :: "scan_env \<Rightarrow> agent \<Rightarrow> string option" where
  "saveResults env a =
    (let stamp = file_stamp (clock env);
         dir = outputDirectory (options a)
     in first_failure
          [write_failure env dir (''detailed-results-'' @ stamp @ ''.json''),
           write_failure env dir (''categorized-results-'' @ stamp @ ''.json''),
           write_failure env dir (''claude-queue-'' @ stamp @ ''.json''),
           write_failure env dir (''summary-'' @ stamp @ ''.json'')])"

text \<open>\<open>cleanup\<close> closes the browser the scanner holds, if any, and forgets it.\<close>

definition cleanup :: "scan_env \<Rightarrow> agent \<Rightarrow> string option \<times> agent" where
  "cleanup env a =
    (if browser a
     then (case close_failure env of
             Some e \<Rightarrow> (Some e, a)
           | None \<Rightarrow> (None, a\<lparr> browser := False \<rparr>))
     else (None, a))"

text \<open>
  \<open>scanPages\<close>: launch the browser, number the URLs, run the pool, summarise, save. What
  the \<open>try\<close> block returns or throws is \<open>outcome\<close>; the \<open>finally\<close> block runs \<open>cleanup\<close>,
  whose own exception takes the place of the outcome. The scanner object outlives the
  call, so it is returned in every case.
\<close>

definition scanPages ::
  "decisionThresholds \<Rightarrow> scan_env \<Rightarrow> (nat \<Rightarrow> nat) \<Rightarrow> agent \<Rightarrow> string list \<Rightarrow>
   (scan_error + BulkScanSummary) \<times> agent" where
  "scanPages cfg env picks a urls =
    (let a1 = a\<lparr> totalUrlsToProcess := length urls \<rparr>;
         (outcome, a3) =
           (case launch_failure env of
              Some e \<Rightarrow> (Inl (LaunchFailed e), a1)
            | None \<Rightarrow>
                (let tasks = map (\<lambda>(index, u). \<lparr> t_url = u, t_index = index, t_total = length urls \<rparr>)
                                 (enumerate 0 urls);
                     a2 = ag (processWithWorkers cfg env picks (a1\<lparr> browser := True \<rparr>) tasks);
                     summary = generateSummary a2 (length urls)
                 in case saveResults env a2 of
                      Some e \<Rightarrow> (Inl (SaveFailed e), a2)
                    | None \<Rightarrow> (Inr summary, a2)))
     in case cleanup env a3 of
          (Some e, a4) \<Rightarrow> (Inl (CloseFailed e), a4)
        | (None, a4) \<Rightarrow> (outcome, a4))"


subsection \<open>Notions used to state what a scan produces\<close>

text \<open>The result a worker pushes for a task: the scan of its URL and the flag derived from it.\<close>

definition result_of :: "decisionThresholds \<Rightarrow> scan_env \<Rightarrow> options \<Rightarrow> WorkerTask \<Rightarrow> WorkerResult" where
  "result_of cfg env opts task =
    (let result = fst (scanSinglePage opts (clock env) (audit env (t_index task)) (t_url task))
     in \<lparr> w_url = t_url task, w_result = result, needsClaudeAnalysis = needsHumanAnalysis cfg result \<rparr>)"

text \<open>The tasks that workers are scanning at the moment.\<close>

definition in_flight :: "worker list \<Rightarrow> WorkerTask list" where
  "in_flight ws = concat (map (\<lambda>w. case w of Scanning t \<Rightarrow> [t] | _ \<Rightarrow> []) ws)"

text \<open>
  The invariant of the pool: the options never change; every task is in the queue, in
  flight, or has its result pushed; and while the queue is not empty some worker is
  still running.
\<close>

definition conserved ::
  "decisionThresholds \<Rightarrow> scan_env \<Rightarrow> agent \<Rightarrow> WorkerTask list \<Rightarrow> pool \<Rightarrow> bool" where
  "conserved cfg env a tasks st =
     (options (ag st) = options a \<and>
      mset (results (ag st))
        + image_mset (result_of cfg env (options a)) (mset (in_flight (workers st)) + mset (workQueue st))
        = mset (results a) + image_mset (result_of cfg env (options a)) (mset tasks) \<and>
      (workQueue st = [] \<or> active st \<noteq> []))"

text \<open>The invariant of the data model: a result with an error has no findings.\<close>

definition error_only :: "PageScanResult \<Rightarrow> bool" where
  "error_only r = (error r \<noteq> None \<longrightarrow>
      violations r = [] \<and> passes r = [] \<and> incomplete r = [] \<and> inapplicable r = [])"

text \<open>The scanner object at the moment the pool has ended, in a scan whose browser launched.\<close>

definition scanned :: "decisionThresholds \<Rightarrow> scan_env \<Rightarrow> (nat \<Rightarrow> nat) \<Rightarrow> agent \<Rightarrow> string list \<Rightarrow> agent" where
  "scanned cfg env picks a urls =
     ag (processWithWorkers cfg env picks (a\<lparr> totalUrlsToProcess := length urls, browser := True \<rparr>)
           (map (\<lambda>(index, u). \<lparr> t_url = u, t_index = index, t_total = length urls \<rparr>) (enumerate 0 urls)))"

text \<open>The page results the scanner holds after a scan, in the order they were pushed.\<close>

definition scan_results :: "(scan_error + BulkScanSummary) \<times> agent \<Rightarrow> PageScanResult list" where
  "scan_results res = map w_result (results (snd res))"

text \<open>The backoff of the specification: \<open>baseDelay * 2^(attempt-1)\<close>.\<close>

definition exponential_backoff :: "int \<Rightarrow> nat \<Rightarrow> int" where
  "exponential_backoff baseDelay attempt = baseDelay * 2 ^ (attempt - 1)"

subsection \<open>The two categorizations side by side\<close>

text \<open>
  The scanner categorizes the results it holds, each with the flag \<open>needsHumanAnalysis\<close>
  gave it when it was pushed; \<open>scanner_categorize\<close> is that categorization of a list of
  page results. \<open>scanner_category\<close> is the list a single result lands in, read off the
  branches of \<open>categorizeResults\<close>; \<open>push_to\<close> is the \<open>switch\<close> of \<open>categorizePages\<close>.
\<close>

definition scanner_categorize :: "decisionThresholds \<Rightarrow> PageScanResult list \<Rightarrow> DecisionResult" where
  "scanner_categorize cfg rs =
     categorizeResults
       (map (\<lambda>r. \<lparr> w_url = url r, w_result = r, needsClaudeAnalysis = needsHumanAnalysis cfg r \<rparr>) rs)"

definition scanner_category :: "decisionThresholds \<Rightarrow> PageScanResult \<Rightarrow> category" where
  "scanner_category cfg r =
    (if truthy (error r) then CRITICAL
     else if length (violations r) = 0 then PASSED
     else if needsHumanAnalysis cfg r then CLAUDE_NEEDED
     else if list_ex (\<lambda>v. impact v = serious \<or> impact v = critical) (violations r) then CRITICAL
     else MINOR_ISSUES)"

definition push_to :: "category \<Rightarrow> DecisionResult \<Rightarrow> PageScanResult \<Rightarrow> DecisionResult" where
  "push_to c res r =
     (case c of
        PASSED \<Rightarrow> res\<lparr> passed := passed res @ [r] \<rparr>
      | MINOR_ISSUES \<Rightarrow> res\<lparr> minorIssues := minorIssues res @ [r] \<rparr>
      | CLAUDE_NEEDED \<Rightarrow> res\<lparr> claudeNeeded := claudeNeeded res @ [r] \<rparr>
      | CRITICAL \<Rightarrow> res\<lparr> critical_pages := critical_pages res @ [r] \<rparr>)"

text \<open>
  When each of the two flags a result for review. The scanner flags a result that has at
  least \<open>criticalThreshold\<close> findings of impact critical, or a finding whose id is an
  entry of the configured complex set or one of its own eight visual rules, or more than
  \<open>incompleteThreshold\<close> incomplete findings. The DecisionAgent flags a result that has
  more than \<open>incompleteThreshold\<close> incomplete findings, or a finding whose id contains one
  of its nine visual rules, or a finding whose id contains an entry of the configured
  complex set or that carries an entry as a tag.
\<close>

definition scanner_flags :: "decisionThresholds \<Rightarrow> PageScanResult \<Rightarrow> bool" where
  "scanner_flags cfg r =
     (criticalViolationsLimit cfg \<le> int (length (filter (\<lambda>v. impact v = critical) (violations r)))
      \<or> (\<exists>v \<in> set (violations r). id_rule v \<in> set (complexIssuesForClaudeAnalysis cfg))
      \<or> incompleteResultsLimit cfg < int (length (incomplete r))
      \<or> (\<exists>v \<in> set (violations r).
            id_rule v \<in> set [''color-contrast'', ''focus-order-semantics'', ''keyboard-navigation'',
                             ''aria-hidden-focus'', ''visual-only-information'', ''focus-management'',
                             ''modal-focus-trap'', ''skip-link'']))"

definition agent_flags :: "decisionThresholds \<Rightarrow> PageScanResult \<Rightarrow> bool" where
  "agent_flags cfg r =
     (incompleteResultsLimit cfg < int (length (incomplete r))
      \<or> (\<exists>v \<in> set (violations r).
            \<exists>rule \<in> set [''color-contrast'', ''focus-visible'', ''focus-order-semantics'',
                          ''keyboard-navigation'', ''aria-hidden-focus'', ''visual-only-information'',
                          ''bypass'', ''landmark-one-main'', ''page-has-heading-one''].
              str_includes (id_rule v) rule)
      \<or> (\<exists>v \<in> set (violations r).
            \<exists>entry \<in> set (complexIssuesForClaudeAnalysis cfg).
              str_includes (id_rule v) entry \<or> entry \<in> set (tags v)))"

text \<open>The number of findings of impact serious or critical.\<close>

definition severe_count :: "PageScanResult \<Rightarrow> nat" where
  "severe_count r = length (filter (\<lambda>v. impact v = critical \<or> impact v = serious) (violations r))"

text \<open>
  The results on which the two categorizations agree: a failed result; a result without
  violations and with at most \<open>incompleteThreshold\<close> incomplete findings; a result at the
  critical volume that the scanner does not flag; a result with violations below the
  critical volume that both flag; a result with violations, none of them serious or
  critical, that neither flags.
\<close>

definition same_category :: "decisionThresholds \<Rightarrow> PageScanResult \<Rightarrow> bool" where
  "same_category cfg r =
     (truthy (error r)
      \<or> (violations r = [] \<and> int (length (incomplete r)) \<le> incompleteResultsLimit cfg)
      \<or> (violations r \<noteq> [] \<and> criticalViolationsLimit cfg \<le> int (severe_count r) \<and> \<not> scanner_flags cfg r)
      \<or> (violations r \<noteq> [] \<and> int (severe_count r) < criticalViolationsLimit cfg
            \<and> scanner_flags cfg r \<and> agent_flags cfg r)
      \<or> (violations r \<noteq> [] \<and> severe_count r = 0 \<and> \<not> scanner_flags cfg r \<and> \<not> agent_flags cfg r))"

definition partition_by :: "(PageScanResult \<Rightarrow> category) \<Rightarrow> PageScanResult list \<Rightarrow> DecisionResult" where
  "partition_by f rs =
     \<lparr> passed = filter (\<lambda>r. f r = PASSED) rs,
       minorIssues = filter (\<lambda>r. f r = MINOR_ISSUES) rs,
       claudeNeeded = filter (\<lambda>r. f r = CLAUDE_NEEDED) rs,
       critical_pages = filter (\<lambda>r. f r = CRITICAL) rs \<rparr>"

section \<open>The review-needed factors, as the specification lists them\<close>

text \<open>
  Each factor that triggers, with its confidence floor and its description, in the order
  of the specification. A finding matches the configured set of complex patterns when
  its id contains an entry of the set or one of its tags is an entry; it matches the
  visual-verification list when its id contains one of the nine rule ids of that list;
  an id mentions a word when it contains it.
  \<^item> complex-pattern findings present: 0.85;
  \<^item> more incomplete findings than \<open>incompleteThreshold\<close>: 0.8;
  \<^item> a finding that matches the visual-verification list: 0.9;
  \<^item> at least 2 findings whose id mentions focus, keyboard or tabindex: 0.85;
  \<^item> at least 3 findings whose id mentions aria: 0.8;
  \<^item> between 1 and \<open>criticalThreshold - 1\<close> findings of impact serious or critical: 0.75.
\<close>

definition review_factors :: "decisionThresholds \<Rightarrow> PageScanResult \<Rightarrow> (real \<times> string) list" where
  "review_factors cfg r =
    (let vs = violations r;
         complexFindings =
           filter (\<lambda>v. \<exists>entry \<in> set (complexIssuesForClaudeAnalysis cfg).
                          str_includes (id_rule v) entry \<or> entry \<in> set (tags v)) vs;
         visual =
           filter (\<lambda>v. \<exists>rule \<in> set [''color-contrast'', ''focus-visible'', ''focus-order-semantics'',
                                        ''keyboard-navigation'', ''aria-hidden-focus'',
                                        ''visual-only-information'', ''bypass'', ''landmark-one-main'',
                                        ''page-has-heading-one''].
                          str_includes (id_rule v) rule) vs;
         focusKeyboard = filter (\<lambda>v. str_includes (id_rule v) ''focus'' \<or> str_includes (id_rule v) ''keyboard''
                                     \<or> str_includes (id_rule v) ''tabindex'') vs;
         aria = filter (\<lambda>v. str_includes (id_rule v) ''aria'') vs;
         severe = filter (\<lambda>v. impact v = critical \<or> impact v = serious) vs
     in (if complexFindings \<noteq> []
         then [(0.85, showNat (length complexFindings) @ '' complex violations requiring visual analysis'')]
         else [])
      @ (if int (length (incomplete r)) > incompleteResultsLimit cfg
         then [(0.8, showNat (length (incomplete r)) @ '' incomplete results need verification'')]
         else [])
      @ (if visual \<noteq> []
         then [(0.9, showNat (length visual) @ '' violations need visual verification'')]
         else [])
      @ (if 2 \<le> length focusKeyboard
         then [(0.85, showNat (length focusKeyboard) @ '' focus/keyboard navigation issues'')]
         else [])
      @ (if 3 \<le> length aria
         then [(0.8, showNat (length aria) @ '' ARIA implementation issues'')]
         else [])
      @ (if 1 \<le> length severe \<and> int (length severe) \<le> criticalViolationsLimit cfg - 1
         then [(0.75, showNat (length severe) @ '' critical/serious violations need review'')]
         else []))"

text \<open>What a list of triggered factors does to the pair (reasons, confidence).\<close>

definition apply_factors :: "(real \<times> string) list \<Rightarrow> string list \<times> real \<Rightarrow> string list \<times> real" where
  "apply_factors fl s = (fst s @ map snd fl, fold max (map fst fl) (snd s))"

section \<open>Reading a decision, and example pages\<close>

definition decided_category :: "decision_error + (EnhancedPageDecision \<times> LearningMemory) \<Rightarrow> category option" where
  "decided_category res = (case res of Inl e \<Rightarrow> None | Inr (d, m) \<Rightarrow> Some (e_category d))"

definition decided_confidence :: "decision_error + (EnhancedPageDecision \<times> LearningMemory) \<Rightarrow> real option" where
  "decided_confidence res = (case res of Inl e \<Rightarrow> None | Inr (d, m) \<Rightarrow> Some (confidence (reasoning d)))"

definition mkViolation :: "string \<Rightarrow> impact \<Rightarrow> ViolationResult" where
  "mkViolation rid imp =
     \<lparr> id_rule = rid, impact = imp, description = [], help_text = [], helpUrl = [], nodes = [], tags = [] \<rparr>"

definition mkResult :: "string \<Rightarrow> ViolationResult list \<Rightarrow> ViolationResult list \<Rightarrow> string option \<Rightarrow> PageScanResult" where
  "mkResult u vs inc err =
     \<lparr> url = u, timestamp = [], violations = vs, passes = [], incomplete = inc,
       inapplicable = [], scanDuration = 0, error = err \<rparr>"

text \<open>A runtime whose URL parser accepts every non-empty string and takes it as the host.\<close>

definition rt0 :: runtime where
  "rt0 = \<lparr> hostname = (\<lambda>u. if u = [] then None else Some u), now = [] \<rparr>"

definition page_critical_contrast :: PageScanResult where
  "page_critical_contrast =
     mkResult ''https://example.com'' (replicate 5 (mkViolation ''color-contrast'' serious)) [] None"

definition page_incomplete_only :: PageScanResult where
  "page_incomplete_only =
     mkResult ''https://example.com'' [] (replicate 6 (mkViolation ''region'' moderate)) None"

definition page_clean :: PageScanResult where
  "page_clean = mkResult ''https://example.com'' [] (replicate 5 (mkViolation ''region'' moderate)) None"

definition page_failed :: PageScanResult where
  "page_failed = mkResult ''https://example.com'' [] [] (Some ''Navigation timeout'')"

definition page_contrast :: PageScanResult where
  "page_contrast = mkResult ''https://example.com'' [mkViolation ''color-contrast'' serious] [] None"

definition page_three_minor :: PageScanResult where
  "page_three_minor = mkResult ''https://example.com'' (replicate 3 (mkViolation ''label'' minor)) [] None"

definition page_three_aria :: PageScanResult where
  "page_three_aria = mkResult ''https://example.com'' (replicate 3 (mkViolation ''aria-roles'' moderate)) [] None"

definition page_five_serious_alt :: PageScanResult where
  "page_five_serious_alt =
     mkResult ''https://example.com'' (replicate 5 (mkViolation ''image-alt'' serious)) [] None"

text \<open>Two pages whose URL is the empty string, which \<open>new URL\<close> rejects.\<close>

definition page_critical_no_url :: PageScanResult where
  "page_critical_no_url = mkResult [] (replicate 5 (mkViolation ''image-alt'' serious)) [] None"

definition page_contrast_no_url :: PageScanResult where
  "page_contrast_no_url = mkResult [] [mkViolation ''color-contrast'' serious] [] None"

definition page_serious_alt :: PageScanResult where
  "page_serious_alt = mkResult ''https://example.com'' [mkViolation ''image-alt'' serious] [] None"

text \<open>Scanner configurations and worlds for the examples.\<close>

definition options_4_retries :: options where
  "options_4_retries = options (fresh_agent
     \<lparr> o_maxWorkers = Some 5, o_outputDirectory = [], o_timeout = None, o_retryAttempts = Some 4 \<rparr>)"

definition opts_two_workers :: BulkScanOptions where
  "opts_two_workers =
     \<lparr> o_maxWorkers = Some 2, o_outputDirectory = [], o_timeout = None, o_retryAttempts = Some 2 \<rparr>"

definition opts_negative_workers :: BulkScanOptions where
  "opts_negative_workers =
     \<lparr> o_maxWorkers = Some (- 1), o_outputDirectory = [], o_timeout = None, o_retryAttempts = None \<rparr>"

definition opts_unwritable_directory :: BulkScanOptions where
  "opts_unwritable_directory =
     \<lparr> o_maxWorkers = Some 2, o_outputDirectory = ''/dev/null/out'', o_timeout = None,
       o_retryAttempts = None \<rparr>"

text \<open>
  In the example worlds every directory but those under \<open>/dev/null\<close> exists or can be
  made, every file can be written, and the browser launches and closes.
\<close>

definition env_all_fail :: scan_env where
  "env_all_fail =
     \<lparr> dir_exists = (\<lambda>dir. False),
       mkdir_failure = (\<lambda>dir. if startsWith dir ''/dev/null'' then Some ''ENOTDIR: not a directory, mkdir''
                               else None),
       write_failure = (\<lambda>dir name. None),
       launch_failure = None, close_failure = None,
       audit = (\<lambda>index attempt. Failed ''net::ERR_TIMED_OUT''), clock = [] \<rparr>"

definition env_first_fails :: scan_env where
  "env_first_fails =
     \<lparr> dir_exists = (\<lambda>dir. False),
       mkdir_failure = (\<lambda>dir. if startsWith dir ''/dev/null'' then Some ''ENOTDIR: not a directory, mkdir''
                               else None),
       write_failure = (\<lambda>dir name. None),
       launch_failure = None, close_failure = None,
       audit = (\<lambda>index attempt.
                  if index = 0 then Failed ''net::ERR_TIMED_OUT''
                  else Scanned \<lparr> ax_violations = [], ax_passes = [], ax_incomplete = [],
                                 ax_inapplicable = [] \<rparr> 1200),
       clock = [] \<rparr>"

text \<open>A world in which the disk is full: the directory is there and no file can be written.\<close>

definition env_disk_full :: scan_env where
  "env_disk_full = env_first_fails\<lparr> dir_exists := (\<lambda>dir. True),
                                     write_failure := (\<lambda>dir name. Some ''ENOSPC: no space left on device, write'') \<rparr>"

text \<open>Two schedules: the workers that still run take turns, or the first of them always runs.\<close>

definition round_robin :: "nat \<Rightarrow> nat" where
  "round_robin k = k"

definition first_worker :: "nat \<Rightarrow> nat" where
  "first_worker k = 0"

definition urls_with_duplicate :: "string list" where
  "urls_with_duplicate = [''https://a.example'', ''https://a.example'', ''https://b.example'']"

section \<open>Properties of the triage engine\<close>

lemma showNat_not_Nil [simp]: "showNat n \<noteq> []"
  by (subst showNat.simps) simp

lemma showNat_5: "showNat 5 = ''5''"
  by (simp add: showNat.simps digit_char_def)

text \<open>
  The first agent, \<open>DecisionAgent.makeDecision\<close>, takes the same two short-circuits and
  the same path to PASSED; it has no confidence.
\<close>

lemma makeDecision_error:
  "truthy (error r) \<Longrightarrow> pd_category (makeDecision cfg r) = CRITICAL"
  by (simp add: makeDecision_def Let_def)

lemma makeDecision_critical_volume:
  assumes "\<not> truthy (error r)"
      and "criticalViolationsLimit cfg
             \<le> int (length (filter (\<lambda>v. impact v = critical \<or> impact v = serious) (violations r)))"
  shows "pd_category (makeDecision cfg r) = CRITICAL"
  using assms by (simp add: makeDecision_def Let_def getCriticalViolations_def)

lemma makeDecision_passed:
  assumes "\<not> truthy (error r)" and "violations r = []"
      and "int (length (incomplete r)) \<le> incompleteResultsLimit cfg"
      and "0 < criticalViolationsLimit cfg"
  shows "pd_category (makeDecision cfg r) = PASSED"
  using assms
  by (simp add: makeDecision_def Let_def getCriticalViolations_def getComplexViolations_def
        DA_needsHumanAnalysis_def)

text \<open>
  The earlier enhanced agent, which nothing constructs, decides a scan error the same
  way, but sends a page at the critical volume to CLAUDE_NEEDED (its score 0.98 against
  0 for CRITICAL, on purpose: the source says that critical pages should go to Claude),
  and raises the priority to High for a serious finding among ten or more findings.
\<close>

lemma E_createErrorDecision_critical:
  "e_category (E_createErrorDecision u err) = CRITICAL
   \<and> confidence (reasoning (E_createErrorDecision u err)) = 1
   \<and> map f_description (factors (reasoning (E_createErrorDecision u err))) = [''Scan failed with error: '' @ err]
   \<and> alternativeDecisions (reasoning (E_createErrorDecision u err)) = []"
  by (simp add: E_createErrorDecision_def)

lemma E_critical_volume_goes_to_claude:
  assumes "criticalViolationsLimit cfg
             \<le> int (length (filter (\<lambda>v. impact v = critical \<or> impact v = serious) vs))"
  shows "selectBestDecision (fst (calculateDecisionScores cfg fs vs)) = (CLAUDE_NEEDED, 1)"
  using assms
  by (simp add: calculateDecisionScores_def getCriticalViolations_def Let_def selectBestDecision_def)

lemma calculateEnhancedPriority_ten_findings:
  "calculateEnhancedPriority (mkViolation ''label'' serious # replicate 9 (mkViolation ''label'' minor)) 0.9 = High"
  by (simp add: calculateEnhancedPriority_def mkViolation_def Let_def)

text \<open>
  C1, as stated, fails for a page whose URL does not parse: with five serious findings
  and no error, \<open>createDecision\<close> calls \<open>new URL(url).hostname\<close>, which throws, and
  \<open>makeDecisionWithReasoning\<close> returns no decision.
\<close>

theorem critical_volume_unparseable_url:
  "error page_critical_no_url = None
   \<and> criticalViolationsLimit SCAN_CONFIG
        \<le> int (length (filter (\<lambda>v. impact v = critical \<or> impact v = serious)
                          (violations page_critical_no_url)))
   \<and> makeDecisionWithReasoning SCAN_CONFIG rt0 Map.empty page_critical_no_url = Inl InvalidURL"
  by (simp add: page_critical_no_url_def mkResult_def mkViolation_def SCAN_CONFIG_def rt0_def
        makeDecisionWithReasoning_def truthy_def getCriticalViolations_def Let_def
        createDecision_def extractInsights_def)

text \<open>
  C1, amended. A page without error, whose URL parses and whose violations hold at
  least \<open>criticalThreshold\<close> findings of impact serious or critical, is decided CRITICAL
  with confidence at least 0.95 (it is 0.95), and the reason given is the critical-volume
  reason, not one of the review-needed checks: the decision is taken before they run,
  whatever complex-pattern findings the page has. The DecisionAgent decides CRITICAL
  as well.
\<close>

theorem critical_volume_short_circuit:
  assumes "\<not> truthy (error r)"
      and "criticalViolationsLimit cfg
             \<le> int (length (filter (\<lambda>v. impact v = critical \<or> impact v = serious) (violations r)))"
      and "hostname rt (url r) \<noteq> None"
  shows "(\<exists>d mem'. makeDecisionWithReasoning cfg rt mem r = Inr (d, mem')
           \<and> e_category d = CRITICAL \<and> confidence (reasoning d) \<ge> 0.95
           \<and> e_reason d = showNat (length (filter (\<lambda>v. impact v = critical \<or> impact v = serious)
                                                 (violations r)))
                             @ '' critical/serious violations require immediate attention'')
         \<and> pd_category (makeDecision cfg r) = CRITICAL"
proof -
  have "\<exists>d mem'. makeDecisionWithReasoning cfg rt mem r = Inr (d, mem')
           \<and> e_category d = CRITICAL \<and> confidence (reasoning d) \<ge> 0.95
           \<and> e_reason d = showNat (length (filter (\<lambda>v. impact v = critical \<or> impact v = serious)
                                                 (violations r)))
                             @ '' critical/serious violations require immediate attention''"
    using assms
    by (auto simp: makeDecisionWithReasoning_def createDecision_def extractInsights_def
          updateLearningMemory_def Let_def getCriticalViolations_def split: option.splits)
  moreover have "pd_category (makeDecision cfg r) = CRITICAL"
    using assms(1,2) by (rule makeDecision_critical_volume)
  ultimately show ?thesis by simp
qed

theorem critical_volume_short_circuit_witness:
  "getComplexViolations SCAN_CONFIG (violations page_critical_contrast) \<noteq> []
   \<and> (\<exists>d mem'. makeDecisionWithReasoning SCAN_CONFIG rt0 Map.empty page_critical_contrast = Inr (d, mem')
           \<and> e_category d = CRITICAL \<and> confidence (reasoning d) \<ge> 0.95
           \<and> e_reason d = ''5 critical/serious violations require immediate attention'')
   \<and> pd_category (makeDecision SCAN_CONFIG page_critical_contrast) = CRITICAL"
proof -
  have h1: "\<not> truthy (error page_critical_contrast)"
    by (simp add: page_critical_contrast_def mkResult_def truthy_def)
  have h2: "criticalViolationsLimit SCAN_CONFIG
             \<le> int (length (filter (\<lambda>v. impact v = critical \<or> impact v = serious)
                               (violations page_critical_contrast)))"
    by (simp add: page_critical_contrast_def mkResult_def mkViolation_def SCAN_CONFIG_def)
  have h3: "hostname rt0 (url page_critical_contrast) \<noteq> None"
    by (simp add: page_critical_contrast_def mkResult_def rt0_def)
  have n: "length (filter (\<lambda>v. impact v = critical \<or> impact v = serious)
                     (violations page_critical_contrast)) = 5"
    by (simp add: page_critical_contrast_def mkResult_def mkViolation_def)
  have cx: "getComplexViolations SCAN_CONFIG (violations page_critical_contrast) \<noteq> []"
    by (simp add: page_critical_contrast_def mkResult_def mkViolation_def getComplexViolations_def
          SCAN_CONFIG_def numeral_eq_Suc)
  show ?thesis
    using critical_volume_short_circuit [OF h1 h2 h3, of Map.empty] cx by (simp add: n showNat_5)
qed

text \<open>
  C2, as stated, fails: a page without error and without violations that has more than
  \<open>incompleteThreshold\<close> incomplete findings is sent to review (CLAUDE_NEEDED, confidence
  0.8), since the check of the incomplete findings runs before the check for an empty
  violations list. Here: no violations, six incomplete findings, the default thresholds.
\<close>

theorem passed_regardless_of_incomplete_counterexample:
  "error page_incomplete_only = None \<and> violations page_incomplete_only = []
   \<and> decided_category (makeDecisionWithReasoning SCAN_CONFIG rt0 Map.empty page_incomplete_only)
       = Some CLAUDE_NEEDED
   \<and> decided_confidence (makeDecisionWithReasoning SCAN_CONFIG rt0 Map.empty page_incomplete_only)
       = Some 0.8
   \<and> pd_category (makeDecision SCAN_CONFIG page_incomplete_only) = CLAUDE_NEEDED"
  by (simp add: page_incomplete_only_def mkResult_def mkViolation_def makeDecisionWithReasoning_def
        truthy_def getCriticalViolations_def getComplexViolations_def SCAN_CONFIG_def
        determineClaudeNeed_def Let_def createDecision_def extractInsights_def updateLearningMemory_def
        rt0_def decided_category_def decided_confidence_def makeDecision_def DA_needsHumanAnalysis_def)

text \<open>
  C2, amended. A page without error, with an empty violations list and with at most
  \<open>incompleteThreshold\<close> incomplete findings is decided PASSED with confidence 1.0,
  whatever its passes and inapplicable lists hold, when the critical threshold is
  positive and the page URL parses. The first agent decides PASSED as well.
\<close>

theorem passed_when_no_violations:
  assumes "\<not> truthy (error r)" and "violations r = []"
      and "int (length (incomplete r)) \<le> incompleteResultsLimit cfg"
      and "0 < criticalViolationsLimit cfg"
      and "hostname rt (url r) \<noteq> None"
  shows "(\<exists>d mem'. makeDecisionWithReasoning cfg rt mem r = Inr (d, mem')
           \<and> e_category d = PASSED \<and> confidence (reasoning d) = 1)
         \<and> pd_category (makeDecision cfg r) = PASSED"
proof -
  have "\<exists>d mem'. makeDecisionWithReasoning cfg rt mem r = Inr (d, mem')
           \<and> e_category d = PASSED \<and> confidence (reasoning d) = 1"
    using assms
    by (auto simp: makeDecisionWithReasoning_def createDecision_def extractInsights_def
          updateLearningMemory_def Let_def getCriticalViolations_def getComplexViolations_def
          determineClaudeNeed_def split: option.splits)
  moreover have "pd_category (makeDecision cfg r) = PASSED"
    using assms(1-4) by (rule makeDecision_passed)
  ultimately show ?thesis by simp
qed

theorem passed_when_no_violations_witness:
  "(\<exists>d mem'. makeDecisionWithReasoning SCAN_CONFIG rt0 Map.empty page_clean = Inr (d, mem')
           \<and> e_category d = PASSED \<and> confidence (reasoning d) = 1)
   \<and> pd_category (makeDecision SCAN_CONFIG page_clean) = PASSED"
proof -
  have h1: "\<not> truthy (error page_clean)" by (simp add: page_clean_def mkResult_def truthy_def)
  have h2: "violations page_clean = []" by (simp add: page_clean_def mkResult_def)
  have h3: "int (length (incomplete page_clean)) \<le> incompleteResultsLimit SCAN_CONFIG"
    by (simp add: page_clean_def mkResult_def SCAN_CONFIG_def)
  have h4: "0 < criticalViolationsLimit SCAN_CONFIG" by (simp add: SCAN_CONFIG_def)
  have h5: "hostname rt0 (url page_clean) \<noteq> None" by (simp add: page_clean_def mkResult_def rt0_def)
  show ?thesis using passed_when_no_violations [OF h1 h2 h3 h4 h5] .
qed

text \<open>
  C5. A page whose error field is set, which the code tests as a string that is present
  and not empty, is decided CRITICAL with confidence 1.0, with exactly one reasoning
  factor, which describes the scan failure, and with no alternatives. The learning
  memory is left as it was.
\<close>

theorem error_short_circuit:
  assumes "error r = Some err" and "err \<noteq> []"
  shows "(\<exists>d. makeDecisionWithReasoning cfg rt mem r = Inr (d, mem)
           \<and> e_category d = CRITICAL \<and> confidence (reasoning d) = 1
           \<and> map f_description (factors (reasoning d)) = [''Scan failed: '' @ err]
           \<and> alternativeDecisions (reasoning d) = [])
         \<and> pd_category (makeDecision cfg r) = CRITICAL"
proof -
  from assms have t: "truthy (error r)" by (simp add: truthy_def)
  have "\<exists>d. makeDecisionWithReasoning cfg rt mem r = Inr (d, mem)
           \<and> e_category d = CRITICAL \<and> confidence (reasoning d) = 1
           \<and> map f_description (factors (reasoning d)) = [''Scan failed: '' @ err]
           \<and> alternativeDecisions (reasoning d) = []"
    using assms by (simp add: makeDecisionWithReasoning_def truthy_def createErrorDecision_def)
  moreover have "pd_category (makeDecision cfg r) = CRITICAL"
    using t by (rule makeDecision_error)
  ultimately show ?thesis by simp
qed

theorem error_short_circuit_witness:
  "(\<exists>d. makeDecisionWithReasoning SCAN_CONFIG rt0 Map.empty page_failed = Inr (d, Map.empty)
           \<and> e_category d = CRITICAL \<and> confidence (reasoning d) = 1
           \<and> map f_description (factors (reasoning d)) = [''Scan failed: Navigation timeout'']
           \<and> alternativeDecisions (reasoning d) = [])
   \<and> pd_category (makeDecision SCAN_CONFIG page_failed) = CRITICAL"
proof -
  have h1: "error page_failed = Some ''Navigation timeout''"
    by (simp add: page_failed_def mkResult_def)
  have h2: "''Navigation timeout'' \<noteq> []" by simp
  show ?thesis using error_short_circuit [OF h1 h2, of SCAN_CONFIG rt0 Map.empty] by simp
qed

text \<open>
  The six checks of \<open>determineClaudeNeed\<close> apply exactly the factors of the
  specification, in its order.
\<close>

lemma pushIf_apply: "pushIf b d f s = apply_factors (if b then [(f, d)] else []) s"
  by (cases s) (simp add: apply_factors_def max.commute)

lemma apply_factors_append: "apply_factors ys (apply_factors xs s) = apply_factors (xs @ ys) s"
  by (simp add: apply_factors_def)

lemma fold_max_Max:
  assumes "xs \<noteq> []" and "\<forall>x \<in> set xs. c \<le> x"
  shows "fold max xs (c::real) = Max (set xs)"
proof -
  have "fold max xs c = Max (set (c # xs))" by (simp only: Max.set_eq_fold)
  also have "\<dots> = max c (Max (set xs))" using assms(1) by simp
  also have "\<dots> = Max (set xs)"
  proof -
    from assms(1) obtain x where "x \<in> set xs" by (cases xs) auto
    then have "c \<le> Max (set xs)" using assms(2) by (meson List.finite_set Max_ge order_trans)
    then show ?thesis by simp
  qed
  finally show ?thesis .
qed

lemma join_Cons_not_Nil: "x \<noteq> [] \<Longrightarrow> join sep (x # xs) \<noteq> []"
  by (cases xs) auto

lemma join_not_Nil:
  assumes "xs \<noteq> []" and "\<forall>x \<in> set xs. x \<noteq> []"
  shows "join sep xs \<noteq> []"
  using assms by (cases xs) (auto simp: join_Cons_not_Nil)

lemma review_factors_floor: "p \<in> set (review_factors cfg r) \<Longrightarrow> 0.7 \<le> fst p \<and> snd p \<noteq> []"
  by (auto simp: review_factors_def Let_def split: if_splits)

lemma determineClaudeNeed_factors:
  "determineClaudeNeed cfg (violations r) (incomplete r) (getComplexViolations cfg (violations r)) =
     (let (reasons, conf) = apply_factors (review_factors cfg r) ([], 0.7)
      in \<lparr> needed = (length reasons > 0),
           cn_reason = (if join ''; '' reasons = [] then ''No complex issues detected'' else join ''; '' reasons),
           cn_confidence = conf \<rparr>)"
proof -
  have sev: "(0 < n \<and> int n < L) = (1 \<le> n \<and> int n \<le> L - 1)" for n :: nat and L :: int
    by arith
  have cx: "getComplexViolations cfg (violations r)
              = filter (\<lambda>v. \<exists>entry \<in> set (complexIssuesForClaudeAnalysis cfg).
                             str_includes (id_rule v) entry \<or> entry \<in> set (tags v)) (violations r)"
    by (simp add: getComplexViolations_def arr_includes_def list_ex_iff)
  have vis: "(\<lambda>v. list_ex (\<lambda>rule. str_includes (id_rule v) rule) visualVerificationRules)
              = (\<lambda>v. \<exists>rule \<in> set [''color-contrast'', ''focus-visible'', ''focus-order-semantics'',
                                    ''keyboard-navigation'', ''aria-hidden-focus'',
                                    ''visual-only-information'', ''bypass'', ''landmark-one-main'',
                                    ''page-has-heading-one'']. str_includes (id_rule v) rule)"
    unfolding visualVerificationRules_def list_ex_iff ..
  show ?thesis
    unfolding determineClaudeNeed_def review_factors_def Let_def pushIf_apply apply_factors_append sev
      cx vis
    by (simp only: length_greater_0_conv append_Nil append_assoc)
qed

lemma determineClaudeNeed_triggered:
  assumes "review_factors cfg r \<noteq> []"
  shows "determineClaudeNeed cfg (violations r) (incomplete r) (getComplexViolations cfg (violations r)) =
           \<lparr> needed = True,
             cn_reason = join ''; '' (map snd (review_factors cfg r)),
             cn_confidence = Max (set (map fst (review_factors cfg r))) \<rparr>"
proof -
  have j: "join ''; '' (map snd (review_factors cfg r)) \<noteq> []"
    using assms review_factors_floor [of _ cfg r] by (intro join_not_Nil) auto
  have m: "fold max (map fst (review_factors cfg r)) 0.7 = Max (set (map fst (review_factors cfg r)))"
    using assms review_factors_floor [of _ cfg r] by (intro fold_max_Max) auto
  show ?thesis
    using assms j m by (simp add: determineClaudeNeed_factors apply_factors_def)
qed

text \<open>
  C6, as stated, fails for a page whose URL does not parse: with one serious
  \<open>color-contrast\<close> finding and no error three factors trigger, and
  \<open>makeDecisionWithReasoning\<close> throws where it builds the decision.
\<close>

theorem review_needed_unparseable_url:
  "error page_contrast_no_url = None
   \<and> int (length (filter (\<lambda>v. impact v = critical \<or> impact v = serious) (violations page_contrast_no_url)))
        < criticalViolationsLimit SCAN_CONFIG
   \<and> map fst (review_factors SCAN_CONFIG page_contrast_no_url) = [0.85, 0.9, 0.75]
   \<and> makeDecisionWithReasoning SCAN_CONFIG rt0 Map.empty page_contrast_no_url = Inl InvalidURL"
proof -
  have "map fst (review_factors SCAN_CONFIG page_contrast_no_url) = [0.85, 0.9, 0.75]"
    by (simp add: review_factors_def page_contrast_no_url_def mkResult_def mkViolation_def
          SCAN_CONFIG_def Let_def)
  moreover have "makeDecisionWithReasoning SCAN_CONFIG rt0 Map.empty page_contrast_no_url = Inl InvalidURL"
    by (simp add: page_contrast_no_url_def mkResult_def mkViolation_def SCAN_CONFIG_def rt0_def
          makeDecisionWithReasoning_def truthy_def getCriticalViolations_def Let_def
          createDecision_def extractInsights_def split: if_splits)
  ultimately show ?thesis
    by (simp add: page_contrast_no_url_def mkResult_def mkViolation_def SCAN_CONFIG_def)
qed

text \<open>
  C6, amended. For a page without error, whose URL parses and which has fewer than
  \<open>criticalThreshold\<close> findings of impact serious or critical, if at least one
  review-needed factor triggers, the decision is CLAUDE_NEEDED (the code's name for
  REVIEW_NEEDED), its confidence is the maximum of the floors of the triggered factors,
  and its reason joins the descriptions of all triggered factors with \<open>; \<close>. The factors
  are those listed above, with their matches written out.
\<close>

theorem review_needed_max_of_floors:
  assumes "\<not> truthy (error r)"
      and "int (length (filter (\<lambda>v. impact v = critical \<or> impact v = serious) (violations r)))
             < criticalViolationsLimit cfg"
      and "review_factors cfg r \<noteq> []"
      and "hostname rt (url r) \<noteq> None"
  shows "\<exists>d mem'. makeDecisionWithReasoning cfg rt mem r = Inr (d, mem')
           \<and> e_category d = CLAUDE_NEEDED
           \<and> confidence (reasoning d) = Max (set (map fst (review_factors cfg r)))
           \<and> e_reason d = join ''; '' (map snd (review_factors cfg r))"
  using assms(1,2,4)
  by (auto simp: makeDecisionWithReasoning_def createDecision_def extractInsights_def
        updateLearningMemory_def Let_def getCriticalViolations_def
        determineClaudeNeed_triggered [OF assms(3)] split: option.splits)

lemma showNat_1: "showNat (Suc 0) = ''1''"
  by (subst showNat.simps) (simp add: digit_char_def)

lemma review_factors_page_contrast:
  "review_factors SCAN_CONFIG page_contrast =
     [(0.85, ''1 complex violations requiring visual analysis''),
      (0.9, ''1 violations need visual verification''),
      (0.75, ''1 critical/serious violations need review'')]"
  by (simp add: review_factors_def page_contrast_def mkResult_def mkViolation_def SCAN_CONFIG_def
        Let_def showNat_1)

lemma showNat_3: "showNat 3 = ''3''"
  by (simp add: showNat.simps digit_char_def)

lemma review_factors_page_three_aria:
  "review_factors SCAN_CONFIG page_three_aria = [(0.8, ''3 ARIA implementation issues'')]"
  by (simp add: review_factors_def page_three_aria_def mkResult_def mkViolation_def SCAN_CONFIG_def
        Let_def showNat_3)

theorem review_needed_max_of_floors_witness:
  "(\<exists>d mem'. makeDecisionWithReasoning SCAN_CONFIG rt0 Map.empty page_contrast = Inr (d, mem')
      \<and> e_category d = CLAUDE_NEEDED
      \<and> confidence (reasoning d) = 0.9
      \<and> e_reason d = ''1 complex violations requiring visual analysis; 1 violations need visual verification; 1 critical/serious violations need review'')
   \<and> (\<exists>d mem'. makeDecisionWithReasoning SCAN_CONFIG rt0 Map.empty page_three_aria = Inr (d, mem')
      \<and> e_category d = CLAUDE_NEEDED
      \<and> confidence (reasoning d) = 0.8
      \<and> e_reason d = ''3 ARIA implementation issues'')"
proof -
  have h1: "\<not> truthy (error page_contrast)" by (simp add: page_contrast_def mkResult_def truthy_def)
  have h2: "int (length (filter (\<lambda>v. impact v = critical \<or> impact v = serious) (violations page_contrast)))
             < criticalViolationsLimit SCAN_CONFIG"
    by (simp add: page_contrast_def mkResult_def mkViolation_def SCAN_CONFIG_def)
  have h3: "review_factors SCAN_CONFIG page_contrast \<noteq> []"
    by (simp add: review_factors_page_contrast)
  have h4: "hostname rt0 (url page_contrast) \<noteq> None"
    by (simp add: page_contrast_def mkResult_def rt0_def)
  have k1: "\<not> truthy (error page_three_aria)" by (simp add: page_three_aria_def mkResult_def truthy_def)
  have k2: "int (length (filter (\<lambda>v. impact v = critical \<or> impact v = serious) (violations page_three_aria)))
             < criticalViolationsLimit SCAN_CONFIG"
    by (simp add: page_three_aria_def mkResult_def mkViolation_def SCAN_CONFIG_def)
  have k3: "review_factors SCAN_CONFIG page_three_aria \<noteq> []"
    by (simp add: review_factors_page_three_aria)
  have k4: "hostname rt0 (url page_three_aria) \<noteq> None"
    by (simp add: page_three_aria_def mkResult_def rt0_def)
  show ?thesis
    using review_needed_max_of_floors [OF h1 h2 h3 h4, of Map.empty]
          review_needed_max_of_floors [OF k1 k2 k3 k4, of Map.empty]
    by (simp add: review_factors_page_contrast review_factors_page_three_aria)
qed

text \<open>
  C7. The priority derived from a violations list is Critical if a finding of impact
  critical exists; otherwise High if at least 3 findings are serious; otherwise Medium if
  at least 1 finding is serious or there are at least 5 findings; otherwise Low.
\<close>

theorem priority_cascade:
  "calculatePriority vs =
     (if (\<exists>v \<in> set vs. impact v = critical) then Critical
      else if 3 \<le> length (filter (\<lambda>v. impact v = serious) vs) then High
      else if 1 \<le> length (filter (\<lambda>v. impact v = serious) vs) \<or> 5 \<le> length vs then Medium
      else Low)"
  by (auto simp: calculatePriority_def Let_def filter_empty_conv)

theorem priority_cascade_witness:
  "calculatePriority [mkViolation ''label'' minor, mkViolation ''label'' critical] = Critical
   \<and> calculatePriority (replicate 3 (mkViolation ''label'' serious)) = High
   \<and> calculatePriority (replicate 2 (mkViolation ''label'' serious)) = Medium
   \<and> calculatePriority (replicate 5 (mkViolation ''label'' minor)) = Medium
   \<and> calculatePriority (replicate 4 (mkViolation ''label'' minor)) = Low
   \<and> calculatePriority [] = Low"
  using priority_cascade [of "[mkViolation ''label'' minor, mkViolation ''label'' critical]"]
        priority_cascade [of "replicate 3 (mkViolation ''label'' serious)"]
        priority_cascade [of "replicate 2 (mkViolation ''label'' serious)"]
        priority_cascade [of "replicate 5 (mkViolation ''label'' minor)"]
        priority_cascade [of "replicate 4 (mkViolation ''label'' minor)"]
        priority_cascade [of "[]"]
  by (simp add: mkViolation_def)

text \<open>
  Every decision of \<open>makeDecisionWithReasoning\<close> for a page without error carries this
  priority, whatever its category. The DecisionAgent, which no program calls, has a
  cascade of its own, over the moderate findings and not the total.
\<close>

lemma decision_priority:
  assumes "\<not> truthy (error r)" and "hostname rt (url r) \<noteq> None"
  shows "\<exists>d mem'. makeDecisionWithReasoning cfg rt mem r = Inr (d, mem')
           \<and> e_priority d = calculatePriority (violations r)"
  using assms
  by (auto simp: makeDecisionWithReasoning_def createDecision_def extractInsights_def
        updateLearningMemory_def Let_def split: option.splits)

lemma DA_calculatePriority_five_minor:
  "DA_calculatePriority (replicate 5 (mkViolation ''label'' minor)) = Low"
  by (simp add: DA_calculatePriority_def mkViolation_def Let_def)

section \<open>Properties of a single page scan\<close>

lemma scanAttempts_error_only:
  "error_only (fst (scanAttempts opts clk resp u attempt lastError delays))"
proof (induction opts clk resp u attempt lastError delays rule: scanAttempts.induct)
  case (1 opts clk resp u attempt lastError delays)
  show ?case
  proof (cases "attempt \<le> retryAttempts opts")
    case False
    then show ?thesis by (subst scanAttempts.simps) (simp add: error_only_def)
  next
    case True
    show ?thesis
    proof (cases "performScan clk u (resp attempt)")
      case (Inl msg)
      with True 1 show ?thesis by (subst scanAttempts.simps) simp
    next
      case (Inr result)
      then have "error result = None"
        by (auto simp: performScan_def split: attempt_outcome.splits)
      with True Inr show ?thesis by (subst scanAttempts.simps) (simp add: error_only_def)
    qed
  qed
qed

lemma scanSinglePage_error_only: "error_only (fst (scanSinglePage opts clk resp u))"
  by (simp add: scanSinglePage_def scanAttempts_error_only)

text \<open>The scanner never reports an empty error message: a set error is a truthy one.\<close>

lemma scanAttempts_error_not_empty:
  "error (fst (scanAttempts opts clk resp u attempt lastError delays)) \<noteq> Some []"
proof (induction opts clk resp u attempt lastError delays rule: scanAttempts.induct)
  case (1 opts clk resp u attempt lastError delays)
  show ?case
  proof (cases "attempt \<le> retryAttempts opts")
    case False
    then show ?thesis by (subst scanAttempts.simps) (simp split: option.splits)
  next
    case True
    show ?thesis
    proof (cases "performScan clk u (resp attempt)")
      case (Inl msg)
      with True 1 show ?thesis by (subst scanAttempts.simps) simp
    next
      case (Inr result)
      then have "error result = None"
        by (auto simp: performScan_def split: attempt_outcome.splits)
      with True Inr show ?thesis by (subst scanAttempts.simps) simp
    qed
  qed
qed

lemma scanSinglePage_error_not_empty: "error (fst (scanSinglePage opts clk resp u)) \<noteq> Some []"
  by (simp add: scanSinglePage_def scanAttempts_error_not_empty)

text \<open>
  When every attempt fails, the waits between attempts are \<open>2000 * attempt\<close> for the
  attempts 1 to \<open>retryAttempts - 1\<close>: they grow linearly.
\<close>

lemma scanAttempts_all_fail:
  assumes "\<forall>a. \<exists>m. resp a = Failed m"
  shows "snd (scanAttempts opts clk resp u attempt lastError delays)
           = delays @ map (\<lambda>a. 2000 * a) [attempt..retryAttempts opts - 1]"
  using assms
proof (induction opts clk resp u attempt lastError delays rule: scanAttempts.induct)
  case (1 opts clk resp u attempt lastError delays)
  note fails = "1.prems"
  show ?case
  proof (cases "attempt \<le> retryAttempts opts")
    case False
    then show ?thesis by (subst scanAttempts.simps) simp
  next
    case True
    from fails obtain m where m: "resp attempt = Failed m" by blast
    then have p: "performScan clk u (resp attempt) = Inl m" by (simp add: performScan_def)
    show ?thesis
    proof (cases "attempt < retryAttempts opts")
      case less: True
      then have "[attempt..retryAttempts opts - 1] = attempt # [attempt + 1..retryAttempts opts - 1]"
        by (simp add: upto_rec1)
      with True less p "1.IH" fails show ?thesis by (subst scanAttempts.simps) simp
    next
      case eq: False
      with True have "attempt = retryAttempts opts" by simp
      with True p "1.IH" fails show ?thesis by (subst scanAttempts.simps) simp
    qed
  qed
qed

lemma scanSinglePage_all_fail_delays:
  "\<forall>a. \<exists>m. resp a = Failed m \<Longrightarrow>
   snd (scanSinglePage opts clk resp u) = map (\<lambda>a. 2000 * a) [1..retryAttempts opts - 1]"
  by (simp add: scanSinglePage_def scanAttempts_all_fail)

text \<open>
  C3. With \<open>retryAttempts = 4\<close> and a page whose four attempts all fail, the scanner waits
  2000, 4000 and 6000 ms between the attempts, where the exponential backoff
  \<open>baseDelay * 2^(attempt-1)\<close> with base 2000 gives 2000, 4000 and 8000 ms. The source
  line is \<open>await this.delay(2000 * attempt); // Exponential backoff\<close>.
\<close>

theorem backoff_delays_are_linear:
  "snd (scanSinglePage options_4_retries [] (\<lambda>attempt. Failed ''net::ERR_TIMED_OUT'') ''https://example.com'')
     = [2000, 4000, 6000]
   \<and> map (exponential_backoff 2000) [1, 2, 3] = [2000, 4000, 8000]"
  by (simp add: scanSinglePage_def scanAttempts.simps performScan_def options_4_retries_def
        fresh_agent_def or_default_def exponential_backoff_def)

section \<open>Properties of the worker pool\<close>

lemma in_flight_update:
  "i < length ws \<Longrightarrow>
   mset (in_flight (ws[i := w])) + mset (case ws ! i of Scanning t \<Rightarrow> [t] | _ \<Rightarrow> [])
     = mset (in_flight ws) + mset (case w of Scanning t \<Rightarrow> [t] | _ \<Rightarrow> [])"
proof (induction ws arbitrary: i)
  case Nil
  then show ?case by simp
next
  case (Cons a ws)
  show ?case
  proof (cases i)
    case 0
    then show ?thesis by (simp add: in_flight_def)
  next
    case (Suc j)
    with Cons.prems have "j < length ws" by simp
    from Cons.IH [OF this] Suc show ?thesis
      by (simp add: in_flight_def)
  qed
qed

lemma in_flight_Idle_Finished:
  assumes "i < length ws" and "ws ! i = Idle"
  shows "mset (in_flight (ws[i := Finished])) = mset (in_flight ws)"
proof -
  have "mset (in_flight (ws[i := Finished])) + mset (case ws ! i of Scanning t \<Rightarrow> [t] | _ \<Rightarrow> [])
          = mset (in_flight ws) + mset (case Finished of Scanning t \<Rightarrow> [t] | _ \<Rightarrow> [])"
    by (rule in_flight_update [OF assms(1)])
  then show ?thesis unfolding assms(2) by simp
qed

lemma in_flight_Idle_Scanning:
  assumes "i < length ws" and "ws ! i = Idle"
  shows "mset (in_flight (ws[i := Scanning t])) = add_mset t (mset (in_flight ws))"
proof -
  have "mset (in_flight (ws[i := Scanning t])) + mset (case ws ! i of Scanning t \<Rightarrow> [t] | _ \<Rightarrow> [])
          = mset (in_flight ws) + mset (case Scanning t of Scanning t \<Rightarrow> [t] | _ \<Rightarrow> [])"
    by (rule in_flight_update [OF assms(1)])
  then show ?thesis unfolding assms(2) by simp
qed

lemma in_flight_Scanning_Idle:
  assumes "i < length ws" and "ws ! i = Scanning t"
  shows "mset (in_flight ws) = add_mset t (mset (in_flight (ws[i := Idle])))"
proof -
  have "mset (in_flight (ws[i := Idle])) + mset (case ws ! i of Scanning t \<Rightarrow> [t] | _ \<Rightarrow> [])
          = mset (in_flight ws) + mset (case Idle of Scanning t \<Rightarrow> [t] | _ \<Rightarrow> [])"
    by (rule in_flight_update [OF assms(1)])
  then show ?thesis unfolding assms(2) by simp
qed

lemma in_flight_all_Finished: "\<forall>w \<in> set ws. w = Finished \<Longrightarrow> in_flight ws = []"
  by (induction ws) (auto simp: in_flight_def)

lemma in_flight_replicate_Idle: "in_flight (replicate n Idle) = []"
  by (induction n) (simp_all add: in_flight_def)

lemma active_Nil_iff: "active st = [] \<longleftrightarrow> (\<forall>w \<in> set (workers st). w = Finished)"
proof
  assume a: "active st = []"
  show "\<forall>w \<in> set (workers st). w = Finished"
  proof
    fix w assume "w \<in> set (workers st)"
    then obtain i where "i < length (workers st)" "workers st ! i = w"
      by (auto simp: in_set_conv_nth)
    with a show "w = Finished" by (auto simp: active_def filter_empty_conv)
  qed
next
  assume "\<forall>w \<in> set (workers st). w = Finished"
  then show "active st = []" by (simp add: active_def filter_empty_conv)
qed

lemma active_update_not_Finished:
  assumes "i < length (workers st)" and "w \<noteq> Finished" and "workers st' = (workers st)[i := w]"
  shows "active st' \<noteq> []"
proof -
  have "i \<in> set [0..<length (workers st')]" using assms(1,3) by simp
  moreover have "workers st' ! i \<noteq> Finished" using assms by simp
  ultimately show ?thesis unfolding active_def filter_empty_conv by blast
qed

text \<open>The pool always comes to an end, with every worker finished.\<close>

lemma run_workers_active: "active (run_workers cfg env picks k st) = []"
proof (induction cfg env picks k st rule: run_workers.induct)
  case (1 cfg env picks k st)
  show ?case
  proof (cases "active st = []")
    case True
    then show ?thesis by (subst run_workers.simps) simp
  next
    case False
    with "1.IH" show ?thesis by (subst run_workers.simps) simp
  qed
qed

text \<open>What every step of a running worker preserves holds when the pool ends.\<close>

lemma run_workers_invariant:
  assumes "P st"
      and "\<And>s i. P s \<Longrightarrow> i \<in> set (active s) \<Longrightarrow> P (worker_step cfg env i s)"
  shows "P (run_workers cfg env picks k st)"
  using assms
proof (induction cfg env picks k st rule: run_workers.induct)
  case (1 cfg env picks k st)
  note holds = "1.prems"(1) and step = "1.prems"(2)
  show ?case
  proof (cases "active st = []")
    case True
    with holds show ?thesis by (subst run_workers.simps) simp
  next
    case False
    then have mem: "active st ! (picks k mod length (active st)) \<in> set (active st)" by simp
    have "P (worker_step cfg env (active st ! (picks k mod length (active st))) st)"
      using holds mem by (rule step)
    then have "P (run_workers cfg env picks (Suc k)
                    (worker_step cfg env (active st ! (picks k mod length (active st))) st))"
      using False step by (intro "1.IH") auto
    with False show ?thesis by (subst run_workers.simps) simp
  qed
qed

lemma worker_step_Idle_Nil:
  "workers st ! i = Idle \<Longrightarrow> workQueue st = [] \<Longrightarrow>
   worker_step cfg env i st = st\<lparr> workers := (workers st)[i := Finished] \<rparr>"
  by (simp add: worker_step_def)

lemma worker_step_Idle_Cons:
  "workers st ! i = Idle \<Longrightarrow> workQueue st = task # rest \<Longrightarrow>
   worker_step cfg env i st = st\<lparr> workQueue := rest, workers := (workers st)[i := Scanning task] \<rparr>"
  by (simp add: worker_step_def)

lemma worker_step_Scanning:
  "workers st ! i = Scanning task \<Longrightarrow>
   worker_step cfg env i st =
     st\<lparr> ag := (ag st)\<lparr> results := results (ag st) @ [result_of cfg env (options (ag st)) task],
                           processedCount := processedCount (ag st) + 1 \<rparr>,
         slept := slept st @ snd (scanSinglePage (options (ag st)) (clock env)
                                     (audit env (t_index task)) (t_url task)) @ [2000],
         workers := (workers st)[i := Idle] \<rparr>"
  by (simp add: worker_step_def result_of_def Let_def split: prod.splits)

lemma worker_step_options: "options (ag (worker_step cfg env i st)) = options (ag st)"
  by (simp add: worker_step_def Let_def split: worker.splits list.splits prod.splits)

lemma worker_step_conserved:
  assumes "conserved cfg env a tasks st" and "i \<in> set (active st)"
  shows "conserved cfg env a tasks (worker_step cfg env i st)"
proof -
  let ?R = "result_of cfg env (options a)"
  from assms(2) have i: "i < length (workers st)" and nf: "workers st ! i \<noteq> Finished"
    by (auto simp: active_def)
  from assms(1) have opts: "options (ag st) = options a"
    and bal: "mset (results (ag st))
                + image_mset ?R (mset (in_flight (workers st)) + mset (workQueue st))
              = mset (results a) + image_mset ?R (mset tasks)"
    by (simp_all add: conserved_def)
  show ?thesis
  proof (cases "workers st ! i")
    case Idle
    show ?thesis
    proof (cases "workQueue st")
      case Nil
      have "worker_step cfg env i st = st\<lparr> workers := (workers st)[i := Finished] \<rparr>"
        using Idle Nil by (rule worker_step_Idle_Nil)
      then show ?thesis
        using opts bal Nil in_flight_Idle_Finished [OF i Idle]
        unfolding conserved_def by simp
    next
      case (Cons task rest)
      let ?st' = "st\<lparr>workQueue := rest, workers := (workers st)[i := Scanning task]\<rparr>"
      have step: "worker_step cfg env i st = ?st'"
        using Idle Cons by (rule worker_step_Idle_Cons)
      have act: "active ?st' \<noteq> []"
        by (rule active_update_not_Finished [OF i, of "Scanning task"]) simp_all
      have "mset (results (ag ?st'))
              + image_mset ?R (mset (in_flight (workers ?st')) + mset (workQueue ?st'))
            = mset (results (ag st))
              + image_mset ?R (mset (in_flight (workers st)) + mset (workQueue st))"
        using Cons in_flight_Idle_Scanning [OF i Idle, of task] by simp
      with bal opts act show ?thesis
        unfolding conserved_def step by simp
    qed
  next
    case (Scanning task)
    let ?st' = "worker_step cfg env i st"
    have ws': "workers ?st' = (workers st)[i := Idle]"
      and q': "workQueue ?st' = workQueue st"
      and r': "results (ag ?st') = results (ag st) @ [?R task]"
      and o': "options (ag ?st') = options a"
      using opts by (simp_all add: worker_step_Scanning [OF Scanning])
    have act: "active ?st' \<noteq> []"
      by (rule active_update_not_Finished [OF i, of Idle]) (simp_all add: ws')
    have "mset (results (ag ?st'))
              + image_mset ?R (mset (in_flight (workers ?st')) + mset (workQueue ?st'))
            = mset (results (ag st))
              + image_mset ?R (mset (in_flight (workers st)) + mset (workQueue st))"
      unfolding ws' q' r' in_flight_Scanning_Idle [OF i Scanning] by simp
    with bal o' act show ?thesis
      unfolding conserved_def by simp
  next
    case Finished
    with nf show ?thesis by simp
  qed
qed

text \<open>
  With at least one worker (or nothing to do), the pool ends with exactly the results it
  had plus one result per task.
\<close>

lemma processWithWorkers_conserved:
  assumes "tasks = [] \<or> 0 < maxWorkers (options a)"
  shows "mset (results (ag (processWithWorkers cfg env picks a tasks)))
           = mset (results a) + image_mset (result_of cfg env (options a)) (mset tasks)"
proof -
  let ?init = "\<lparr> ag = a, workQueue = tasks,
                 workers = replicate (nat (maxWorkers (options a))) Idle, slept = [] \<rparr>"
  let ?final = "run_workers cfg env picks 0 ?init"
  have "workQueue ?init = [] \<or> active ?init \<noteq> []"
  proof (cases "tasks = []")
    case True
    then show ?thesis by simp
  next
    case False
    with assms have "0 < nat (maxWorkers (options a))" by simp
    then have "0 \<in> set (active ?init)" by (simp add: active_def)
    then show ?thesis by auto
  qed
  then have "conserved cfg env a tasks ?init"
    by (simp add: conserved_def in_flight_replicate_Idle)
  then have c: "conserved cfg env a tasks ?final"
    by (rule run_workers_invariant) (rule worker_step_conserved)
  have fin: "active ?final = []" by (rule run_workers_active)
  then have fl: "in_flight (workers ?final) = []"
    by (simp add: active_Nil_iff in_flight_all_Finished)
  from c fin have q: "workQueue ?final = []" by (simp add: conserved_def)
  from c have "mset (results (ag ?final))
        + image_mset (result_of cfg env (options a)) (mset (in_flight (workers ?final)) + mset (workQueue ?final))
        = mset (results a) + image_mset (result_of cfg env (options a)) (mset tasks)"
    by (simp add: conserved_def)
  then show ?thesis
    unfolding fl q processWithWorkers_def by simp
qed

text \<open>With a worker count of zero or less no worker is started and nothing happens.\<close>

lemma processWithWorkers_no_workers:
  assumes "maxWorkers (options a) \<le> 0"
  shows "ag (processWithWorkers cfg env picks a tasks) = a"
proof -
  have "active \<lparr> ag = a, workQueue = tasks, workers = replicate (nat (maxWorkers (options a))) Idle, slept = [] \<rparr> = []"
    using assms by (simp add: active_def)
  then show ?thesis
    unfolding processWithWorkers_def by (subst run_workers.simps) simp
qed

lemma processWithWorkers_options: "options (ag (processWithWorkers cfg env picks a tasks)) = options a"
proof -
  let ?init = "\<lparr> ag = a, workQueue = tasks,
                 workers = replicate (nat (maxWorkers (options a))) Idle, slept = [] \<rparr>"
  have "options (ag ?init) = options a" by simp
  then have "options (ag (run_workers cfg env picks 0 ?init)) = options a"
    by (rule run_workers_invariant) (simp add: worker_step_options)
  then show ?thesis by (simp add: processWithWorkers_def)
qed

lemma result_of_url: "w_url (result_of cfg env opts task) = t_url task"
  by (simp add: result_of_def Let_def)

lemma result_of_error_only: "error_only (w_result (result_of cfg env opts task))"
  by (simp add: result_of_def Let_def scanSinglePage_error_only)

lemma map_t_url_tasks:
  "map t_url (map (\<lambda>(index, u). \<lparr> t_url = u, t_index = index, t_total = n \<rparr>) (enumerate k urls)) = urls"
  by (induction urls arbitrary: k) simp_all

text \<open>What \<open>scanPages\<close> leaves in the scanner and what it returns.\<close>

lemma cleanup_results: "results (snd (cleanup env a)) = results a"
  by (simp add: cleanup_def split: option.splits)

lemma cleanup_options: "options (snd (cleanup env a)) = options a"
  by (simp add: cleanup_def split: option.splits)

lemma cleanup_closes: "close_failure env = None \<Longrightarrow> fst (cleanup env a) = None"
  by (simp add: cleanup_def)

lemma saveResults_options: "options a = options b \<Longrightarrow> saveResults env a = saveResults env b"
  by (simp add: saveResults_def)

lemma scanned_options: "options (scanned cfg env picks a urls) = options a"
  by (simp add: scanned_def processWithWorkers_options)

lemma scanPages_snd:
  "snd (scanPages cfg env picks a urls)
     = snd (cleanup env (case launch_failure env of
                           Some e \<Rightarrow> a\<lparr> totalUrlsToProcess := length urls \<rparr>
                         | None \<Rightarrow> scanned cfg env picks a urls))"
  by (simp add: scanPages_def scanned_def Let_def split: option.splits prod.splits)

lemma scanPages_results:
  "results (snd (scanPages cfg env picks a urls))
     = (case launch_failure env of Some e \<Rightarrow> results a | None \<Rightarrow> results (scanned cfg env picks a urls))"
  by (simp add: scanPages_snd cleanup_results split: option.splits)

lemma scanPages_options: "options (snd (scanPages cfg env picks a urls)) = options a"
  by (simp add: scanPages_snd cleanup_options scanned_options split: option.splits)

lemma scanPages_returns:
  assumes "launch_failure env = None" and "saveResults env a = None" and "close_failure env = None"
  shows "fst (scanPages cfg env picks a urls)
           = Inr (generateSummary (scanned cfg env picks a urls) (length urls))"
proof -
  have "saveResults env (scanned cfg env picks a urls) = saveResults env a"
    by (rule saveResults_options) (rule scanned_options)
  with assms(2) have sv: "saveResults env (scanned cfg env picks a urls) = None" by simp
  have "fst (cleanup env (scanned cfg env picks a urls)) = None"
    using assms(3) by (rule cleanup_closes)
  then obtain a4 where cl: "cleanup env (scanned cfg env picks a urls) = (None, a4)"
    by (cases "cleanup env (scanned cfg env picks a urls)") simp
  show ?thesis
    using assms(1) sv cl
    by (simp add: scanPages_def scanned_def [symmetric] Let_def)
qed

lemma scanned_no_workers:
  assumes "maxWorkers (options a) \<le> 0"
  shows "scanned cfg env picks a urls = a\<lparr> totalUrlsToProcess := length urls, browser := True \<rparr>"
  unfolding scanned_def using assms by (intro processWithWorkers_no_workers) simp

lemma scanned_results:
  assumes "0 < maxWorkers (options a)"
  shows "mset (results (scanned cfg env picks a urls))
           = mset (results a)
             + mset (map (result_of cfg env (options a))
                      (map (\<lambda>(index, u). \<lparr> t_url = u, t_index = index, t_total = length urls \<rparr>)
                           (enumerate 0 urls)))"
proof -
  let ?a1 = "a\<lparr> totalUrlsToProcess := length urls, browser := True \<rparr>"
  let ?tasks = "map (\<lambda>(index, u). \<lparr> t_url = u, t_index = index, t_total = length urls \<rparr>) (enumerate 0 urls)"
  have r1: "results ?a1 = results a" and o1: "options ?a1 = options a" by simp_all
  have "mset (results (ag (processWithWorkers cfg env picks ?a1 ?tasks)))
          = mset (results ?a1) + image_mset (result_of cfg env (options ?a1)) (mset ?tasks)"
    by (rule processWithWorkers_conserved) (simp add: assms)
  then show ?thesis
    unfolding scanned_def by (simp only: r1 o1 mset_map)
qed

lemma new_BulkScannerAgent_fresh:
  "new_BulkScannerAgent env opts = Inr a \<Longrightarrow> a = fresh_agent opts"
  by (auto simp: new_BulkScannerAgent_def Let_def split: option.splits)

text \<open>A run of the model: two workers, two URLs, every attempt at the first URL failing.\<close>

lemma scan_two_urls:
  "scan_results (scanPages SCAN_CONFIG env_first_fails round_robin (fresh_agent opts_two_workers)
                   [''https://a.example'', ''https://b.example''])
   = [\<lparr> url = ''https://a.example'', timestamp = [], violations = [], passes = [], incomplete = [],
         inapplicable = [], scanDuration = 0, error = Some ''net::ERR_TIMED_OUT'' \<rparr>,
      \<lparr> url = ''https://b.example'', timestamp = [], violations = [], passes = [], incomplete = [],
         inapplicable = [], scanDuration = 1200, error = None \<rparr>]"
  by code_simp

text \<open>
  A failure to write the result files is thrown to the caller of \<open>scanPages\<close>; the
  results stay in the scanner.
\<close>

lemma scan_disk_full:
  "fst (scanPages SCAN_CONFIG env_disk_full round_robin (fresh_agent opts_two_workers)
          [''https://a.example'', ''https://b.example''])
     = Inl (SaveFailed ''ENOSPC: no space left on device, write'')
   \<and> length (results (snd (scanPages SCAN_CONFIG env_disk_full round_robin (fresh_agent opts_two_workers)
                              [''https://a.example'', ''https://b.example'']))) = 2"
  by code_simp


section \<open>Properties of the scan operation\<close>

text \<open>
  C4, as stated, fails for a configuration the scanner accepts: with a worker count of
  -1 the loop that starts the workers does not run, and a scan of three URLs returns
  its summary normally with no result at all.
\<close>

theorem one_result_per_url_counterexample:
  "length urls_with_duplicate = 3
   \<and> new_BulkScannerAgent env_first_fails opts_negative_workers = Inr (fresh_agent opts_negative_workers)
   \<and> fst (scanPages SCAN_CONFIG env_first_fails round_robin (fresh_agent opts_negative_workers)
            urls_with_duplicate)
       = Inr \<lparr> totalPages = 3, passedPages = 0, s_minorIssues = 0, claudeAnalysisNeeded = 0,
               criticalIssues = 0, s_errors = 0 \<rparr>
   \<and> scan_results (scanPages SCAN_CONFIG env_first_fails round_robin
                     (fresh_agent opts_negative_workers) urls_with_duplicate) = []"
proof -
  let ?a = "fresh_agent opts_negative_workers"
  have h1: "launch_failure env_first_fails = None" by (simp add: env_first_fails_def)
  have h2: "maxWorkers (options ?a) \<le> 0"
    by (simp add: fresh_agent_def opts_negative_workers_def or_default_def)
  have h3: "saveResults env_first_fails ?a = None"
    by (simp add: saveResults_def env_first_fails_def)
  have h4: "close_failure env_first_fails = None" by (simp add: env_first_fails_def)
  have n: "length urls_with_duplicate = 3" by (simp add: urls_with_duplicate_def)
  have c: "new_BulkScannerAgent env_first_fails opts_negative_workers = Inr ?a"
    by (simp add: new_BulkScannerAgent_def ensureOutputDirectory_def fresh_agent_def
          opts_negative_workers_def env_first_fails_def)
  have sc: "scanned SCAN_CONFIG env_first_fails round_robin ?a urls_with_duplicate
              = ?a\<lparr> totalUrlsToProcess := length urls_with_duplicate, browser := True \<rparr>"
    using h2 by (rule scanned_no_workers)
  have r: "scan_results (scanPages SCAN_CONFIG env_first_fails round_robin ?a urls_with_duplicate) = []"
    by (simp add: scan_results_def scanPages_results h1 sc) (simp add: fresh_agent_def)
  have "fst (scanPages SCAN_CONFIG env_first_fails round_robin ?a urls_with_duplicate)
          = Inr (generateSummary (scanned SCAN_CONFIG env_first_fails round_robin ?a urls_with_duplicate)
                   (length urls_with_duplicate))"
    using h1 h3 h4 by (rule scanPages_returns)
  then have f: "fst (scanPages SCAN_CONFIG env_first_fails round_robin ?a urls_with_duplicate)
       = Inr \<lparr> totalPages = 3, passedPages = 0, s_minorIssues = 0, claudeAnalysisNeeded = 0,
               criticalIssues = 0, s_errors = 0 \<rparr>"
    unfolding sc n by (simp add: generateSummary_def categorizeResults_def fresh_agent_def)
  from n c f r show ?thesis by simp
qed

text \<open>
  C4, amended. When the worker count of the scanner is at least 1 (as it is for every
  setting that is unset, zero or positive), the browser launches and the scanner holds no
  results of an earlier scan, a scan of a URL list of length N (the empty list and lists
  with duplicates included) leaves exactly N results in the scanner: one per occurrence
  of a URL in the input, each the scan of that occurrence, whatever audits succeed or
  fail and in whatever order the workers run. When moreover the result files can be
  written and the browser closes, the scan returns its summary, of N pages.
\<close>

theorem scan_one_result_per_url:
  assumes "launch_failure env = None" and "0 < maxWorkers (options a)" and "results a = []"
  shows "\<exists>outcome a'. scanPages cfg env picks a urls = (outcome, a')
           \<and> length (results a') = length urls
           \<and> mset (map w_url (results a')) = mset urls
           \<and> mset (results a')
               = mset (map (\<lambda>(index, u). result_of cfg env (options a)
                                           \<lparr> t_url = u, t_index = index, t_total = length urls \<rparr>)
                           (enumerate 0 urls))
           \<and> (saveResults env a = None \<and> close_failure env = None
                \<longrightarrow> (\<exists>summary. outcome = Inr summary \<and> totalPages summary = length urls))"
proof -
  let ?tasks = "map (\<lambda>(index, u). \<lparr> t_url = u, t_index = index, t_total = length urls \<rparr>) (enumerate 0 urls)"
  let ?res = "scanPages cfg env picks a urls"
  have rs: "results (snd ?res) = results (scanned cfg env picks a urls)"
    using assms(1) by (simp add: scanPages_results)
  have "mset (results (scanned cfg env picks a urls))
          = mset (results a) + mset (map (result_of cfg env (options a)) ?tasks)"
    using assms(2) by (rule scanned_results)
  then have m: "mset (results (snd ?res)) = mset (map (result_of cfg env (options a)) ?tasks)"
    by (simp only: rs assms(3) mset.simps(1) empty_neutral)
  then have m': "mset (results (snd ?res))
               = mset (map (\<lambda>(index, u). result_of cfg env (options a)
                                           \<lparr> t_url = u, t_index = index, t_total = length urls \<rparr>)
                           (enumerate 0 urls))"
    by (simp add: comp_def case_prod_unfold)
  from m have "size (mset (results (snd ?res))) = size (mset (map (result_of cfg env (options a)) ?tasks))"
    by simp
  then have len: "length (results (snd ?res)) = length urls" by simp
  from m have "image_mset w_url (mset (results (snd ?res)))
                 = image_mset w_url (mset (map (result_of cfg env (options a)) ?tasks))"
    by simp
  then have "mset (map w_url (results (snd ?res))) = mset (map t_url ?tasks)"
    by (simp add: comp_def result_of_url multiset.map_comp)
  then have urls: "mset (map w_url (results (snd ?res))) = mset urls"
    by (simp only: map_t_url_tasks)
  have ret: "saveResults env a = None \<and> close_failure env = None
               \<longrightarrow> (\<exists>summary. fst ?res = Inr summary \<and> totalPages summary = length urls)"
  proof
    assume "saveResults env a = None \<and> close_failure env = None"
    then have "fst ?res = Inr (generateSummary (scanned cfg env picks a urls) (length urls))"
      using assms(1) by (intro scanPages_returns) simp_all
    then show "\<exists>summary. fst ?res = Inr summary \<and> totalPages summary = length urls"
      by (simp add: generateSummary_def Let_def)
  qed
  have "?res = (fst ?res, snd ?res)" by simp
  with len urls m' ret show ?thesis by blast
qed

theorem scan_one_result_per_url_witness:
  "\<exists>outcome a'. scanPages SCAN_CONFIG env_first_fails round_robin (fresh_agent opts_two_workers)
                   urls_with_duplicate = (outcome, a')
     \<and> length (results a') = 3
     \<and> mset (map w_url (results a')) = mset urls_with_duplicate
     \<and> (\<exists>summary. outcome = Inr summary \<and> totalPages summary = 3)"
proof -
  have h1: "launch_failure env_first_fails = None" by (simp add: env_first_fails_def)
  have h2: "0 < maxWorkers (options (fresh_agent opts_two_workers))"
    by (simp add: fresh_agent_def opts_two_workers_def or_default_def)
  have h3: "results (fresh_agent opts_two_workers) = []"
    by (simp add: fresh_agent_def)
  have h4: "saveResults env_first_fails (fresh_agent opts_two_workers) = None"
    by (simp add: saveResults_def env_first_fails_def)
  have h5: "close_failure env_first_fails = None" by (simp add: env_first_fails_def)
  have n: "length urls_with_duplicate = 3" by (simp add: urls_with_duplicate_def)
  show ?thesis
    using scan_one_result_per_url [OF h1 h2 h3, of SCAN_CONFIG round_robin urls_with_duplicate] h4 h5
    unfolding n by blast
qed

text \<open>
  C8. Every page result a scan leaves in a scanner that its constructor returned
  satisfies the invariant of the data model: if its error field is set, its violations,
  passes, incomplete and inapplicable lists are empty. This holds whether the scan
  returns or throws; it returns its summary when the browser launches and closes and the
  result files can be written.
\<close>

theorem scanned_error_has_no_findings:
  assumes "new_BulkScannerAgent env opts = Inr a"
  shows "(\<forall>wr \<in> set (results (snd (scanPages cfg env picks a urls))). error_only (w_result wr))
         \<and> (launch_failure env = None \<and> saveResults env a = None \<and> close_failure env = None
              \<longrightarrow> (\<exists>summary. fst (scanPages cfg env picks a urls) = Inr summary))"
proof -
  from assms have a: "a = fresh_agent opts" by (rule new_BulkScannerAgent_fresh)
  then have r0: "results a = []" by (simp add: fresh_agent_def)
  let ?res = "scanPages cfg env picks a urls"
  have inv: "\<forall>wr \<in> set (results (snd ?res)). error_only (w_result wr)"
  proof (cases "launch_failure env")
    case (Some e)
    then show ?thesis by (simp add: scanPages_results r0)
  next
    case None
    then have rs: "results (snd ?res) = results (scanned cfg env picks a urls)"
      by (simp add: scanPages_results)
    show ?thesis
    proof (cases "0 < maxWorkers (options a)")
      case True
      then have "mset (results (scanned cfg env picks a urls))
            = mset (results a)
              + mset (map (result_of cfg env (options a))
                       (map (\<lambda>(index, u). \<lparr> t_url = u, t_index = index, t_total = length urls \<rparr>)
                            (enumerate 0 urls)))"
        by (rule scanned_results)
      then have "mset (results (snd ?res))
            = mset (map (result_of cfg env (options a))
                       (map (\<lambda>(index, u). \<lparr> t_url = u, t_index = index, t_total = length urls \<rparr>)
                            (enumerate 0 urls)))"
        by (simp only: rs r0 mset.simps(1) empty_neutral)
      then have "set (results (snd ?res))
            = set (map (result_of cfg env (options a))
                       (map (\<lambda>(index, u). \<lparr> t_url = u, t_index = index, t_total = length urls \<rparr>)
                            (enumerate 0 urls)))"
        by (rule mset_eq_setD)
      then show ?thesis by (auto simp: result_of_error_only)
    next
      case False
      then have "scanned cfg env picks a urls = a\<lparr> totalUrlsToProcess := length urls, browser := True \<rparr>"
        by (intro scanned_no_workers) simp
      then show ?thesis by (simp add: rs r0)
    qed
  qed
  have ret: "launch_failure env = None \<and> saveResults env a = None \<and> close_failure env = None
              \<longrightarrow> (\<exists>summary. fst ?res = Inr summary)"
    by (simp add: scanPages_returns)
  from inv ret show ?thesis by simp
qed

theorem scanned_error_has_no_findings_witness:
  "(\<exists>wr \<in> set (results (snd (scanPages SCAN_CONFIG env_first_fails round_robin
                                  (fresh_agent opts_two_workers)
                                  [''https://a.example'', ''https://b.example'']))).
       error (w_result wr) = Some ''net::ERR_TIMED_OUT''
       \<and> violations (w_result wr) = [] \<and> passes (w_result wr) = []
       \<and> incomplete (w_result wr) = [] \<and> inapplicable (w_result wr) = [])
   \<and> map (\<lambda>wr. error (w_result wr))
         (results (snd (scanPages SCAN_CONFIG env_first_fails round_robin (fresh_agent opts_two_workers)
                          [''https://a.example'', ''https://b.example''])))
       = [Some ''net::ERR_TIMED_OUT'', None]
   \<and> (\<exists>summary. fst (scanPages SCAN_CONFIG env_first_fails round_robin (fresh_agent opts_two_workers)
                         [''https://a.example'', ''https://b.example'']) = Inr summary)"
proof -
  let ?res = "scanPages SCAN_CONFIG env_first_fails round_robin (fresh_agent opts_two_workers)
                [''https://a.example'', ''https://b.example'']"
  have h0: "new_BulkScannerAgent env_first_fails opts_two_workers = Inr (fresh_agent opts_two_workers)"
    by (simp add: new_BulkScannerAgent_def ensureOutputDirectory_def fresh_agent_def
          opts_two_workers_def env_first_fails_def)
  have h1: "launch_failure env_first_fails = None \<and> saveResults env_first_fails (fresh_agent opts_two_workers) = None
            \<and> close_failure env_first_fails = None"
    by (simp add: saveResults_def env_first_fails_def)
  from scanned_error_has_no_findings
         [OF h0, of SCAN_CONFIG round_robin "[''https://a.example'', ''https://b.example'']"] h1
  have inv: "\<forall>wr \<in> set (results (snd ?res)). error_only (w_result wr)"
    and ret: "\<exists>summary. fst ?res = Inr summary"
    by simp_all
  from scan_two_urls have "map w_result (results (snd ?res))
     = [\<lparr> url = ''https://a.example'', timestamp = [], violations = [], passes = [], incomplete = [],
              inapplicable = [], scanDuration = 0, error = Some ''net::ERR_TIMED_OUT'' \<rparr>,
        \<lparr> url = ''https://b.example'', timestamp = [], violations = [], passes = [], incomplete = [],
              inapplicable = [], scanDuration = 1200, error = None \<rparr>]"
    by (simp add: scan_results_def)
  then have errs: "map (\<lambda>wr. error (w_result wr)) (results (snd ?res)) = [Some ''net::ERR_TIMED_OUT'', None]"
    by (auto simp: map_eq_Cons_conv)
  then have "\<exists>wr. wr \<in> set (results (snd ?res)) \<and> error (w_result wr) = Some ''net::ERR_TIMED_OUT''"
    by (auto simp: map_eq_Cons_conv)
  then obtain wr where wr: "wr \<in> set (results (snd ?res))"
    and e: "error (w_result wr) = Some ''net::ERR_TIMED_OUT''"
    by blast
  from inv wr have "error_only (w_result wr)" by blast
  with e have "violations (w_result wr) = [] \<and> passes (w_result wr) = []
       \<and> incomplete (w_result wr) = [] \<and> inapplicable (w_result wr) = []"
    by (simp add: error_only_def)
  with wr e have "\<exists>wr \<in> set (results (snd ?res)).
       error (w_result wr) = Some ''net::ERR_TIMED_OUT''
       \<and> violations (w_result wr) = [] \<and> passes (w_result wr) = []
       \<and> incomplete (w_result wr) = [] \<and> inapplicable (w_result wr) = []"
    by blast
  with errs ret show ?thesis by blast
qed

text \<open>
  C9, as stated, fails: nothing in the scanner validates a number of its configuration.
  A worker count of -1 is accepted by the constructor and kept as it is, and the scan of
  one URL returns its summary normally, with no page scanned.
\<close>

theorem negative_workers_not_rejected:
  "new_BulkScannerAgent env_all_fail opts_negative_workers = Inr (fresh_agent opts_negative_workers)
   \<and> scanPages SCAN_CONFIG env_all_fail first_worker (fresh_agent opts_negative_workers)
       [''https://example.com'']
     = (Inr \<lparr> totalPages = 1, passedPages = 0, s_minorIssues = 0, claudeAnalysisNeeded = 0,
              criticalIssues = 0, s_errors = 0 \<rparr>,
        \<lparr> options = \<lparr> maxWorkers = - 1, outputDirectory = ''results/bulk-scan-results'',
                      timeout = 30000, retryAttempts = 3 \<rparr>,
          browser = False, processedCount = 0, results = [], errors = [], totalUrlsToProcess = 1 \<rparr>)"
proof -
  let ?a = "fresh_agent opts_negative_workers"
  have c: "new_BulkScannerAgent env_all_fail opts_negative_workers = Inr ?a"
    by (simp add: new_BulkScannerAgent_def ensureOutputDirectory_def fresh_agent_def
          opts_negative_workers_def env_all_fail_def)
  have h1: "launch_failure env_all_fail = None" and h4: "close_failure env_all_fail = None"
    by (simp_all add: env_all_fail_def)
  have h2: "maxWorkers (options ?a) \<le> 0"
    by (simp add: fresh_agent_def opts_negative_workers_def or_default_def)
  have h3: "saveResults env_all_fail ?a = None"
    by (simp add: saveResults_def env_all_fail_def)
  have sc: "scanned SCAN_CONFIG env_all_fail first_worker ?a [''https://example.com'']
              = ?a\<lparr> totalUrlsToProcess := length [''https://example.com''], browser := True \<rparr>"
    using h2 by (rule scanned_no_workers)
  have "fst (scanPages SCAN_CONFIG env_all_fail first_worker ?a [''https://example.com''])
          = Inr (generateSummary (scanned SCAN_CONFIG env_all_fail first_worker ?a [''https://example.com''])
                   (length [''https://example.com'']))"
    using h1 h3 h4 by (rule scanPages_returns)
  then have f: "fst (scanPages SCAN_CONFIG env_all_fail first_worker ?a [''https://example.com''])
          = Inr \<lparr> totalPages = 1, passedPages = 0, s_minorIssues = 0, claudeAnalysisNeeded = 0,
                  criticalIssues = 0, s_errors = 0 \<rparr>"
    unfolding sc by (simp add: generateSummary_def categorizeResults_def fresh_agent_def)
  have "snd (scanPages SCAN_CONFIG env_all_fail first_worker ?a [''https://example.com''])
          = snd (cleanup env_all_fail
                   (scanned SCAN_CONFIG env_all_fail first_worker ?a [''https://example.com'']))"
    by (simp add: scanPages_snd h1)
  then have s: "snd (scanPages SCAN_CONFIG env_all_fail first_worker ?a [''https://example.com''])
          = \<lparr> options = \<lparr> maxWorkers = - 1, outputDirectory = ''results/bulk-scan-results'',
                          timeout = 30000, retryAttempts = 3 \<rparr>,
              browser = False, processedCount = 0, results = [], errors = [], totalUrlsToProcess = 1 \<rparr>"
    unfolding sc
    by (simp add: cleanup_def h4 fresh_agent_def opts_negative_workers_def or_default_def)
  from c f s show ?thesis by (simp add: prod_eq_iff)
qed

text \<open>
  C9, amended. The constructor of the scanner checks one thing of its configuration
  before any work starts, the output directory: it throws exactly when that directory
  does not exist and cannot be created, with the error of the attempt to create it;
  the directory is \<open>results/bulk-scan-results\<close> when none is given. It validates no
  number: a worker count, timeout or retry count that is unset, not a number or zero is
  replaced by its default (5, 30000 ms, 3) and every other value, a negative one
  included, is kept; a scan leaves these options as they are, and with a worker count of
  zero or less it dispatches no URL and leaves no result.
\<close>

theorem configuration_rejected_only_for_output_directory:
  "outputDirectory (options (fresh_agent opts))
     = (if o_outputDirectory opts = [] then ''results/bulk-scan-results'' else o_outputDirectory opts)
   \<and> ((\<exists>msg. new_BulkScannerAgent env opts = Inl (MkdirFailed msg)
          \<and> \<not> dir_exists env (outputDirectory (options (fresh_agent opts)))
          \<and> mkdir_failure env (outputDirectory (options (fresh_agent opts))) = Some msg)
   \<or> (new_BulkScannerAgent env opts = Inr (fresh_agent opts)
      \<and> (dir_exists env (outputDirectory (options (fresh_agent opts)))
           \<or> mkdir_failure env (outputDirectory (options (fresh_agent opts))) = None)
      \<and> maxWorkers (options (fresh_agent opts))
            = (case o_maxWorkers opts of None \<Rightarrow> 5 | Some n \<Rightarrow> if n = 0 then 5 else n)
      \<and> timeout (options (fresh_agent opts))
            = (case o_timeout opts of None \<Rightarrow> 30000 | Some n \<Rightarrow> if n = 0 then 30000 else n)
      \<and> retryAttempts (options (fresh_agent opts))
            = (case o_retryAttempts opts of None \<Rightarrow> 3 | Some n \<Rightarrow> if n = 0 then 3 else n)
      \<and> options (snd (scanPages cfg env picks (fresh_agent opts) urls)) = options (fresh_agent opts)
      \<and> (maxWorkers (options (fresh_agent opts)) \<le> 0
           \<longrightarrow> results (snd (scanPages cfg env picks (fresh_agent opts) urls)) = [])))"
proof -
  let ?a = "fresh_agent opts"
  have dir: "outputDirectory (options ?a)
     = (if o_outputDirectory opts = [] then ''results/bulk-scan-results'' else o_outputDirectory opts)"
    by (simp add: fresh_agent_def)
  have nums: "maxWorkers (options ?a)
            = (case o_maxWorkers opts of None \<Rightarrow> 5 | Some n \<Rightarrow> if n = 0 then 5 else n)
      \<and> timeout (options ?a)
            = (case o_timeout opts of None \<Rightarrow> 30000 | Some n \<Rightarrow> if n = 0 then 30000 else n)
      \<and> retryAttempts (options ?a)
            = (case o_retryAttempts opts of None \<Rightarrow> 3 | Some n \<Rightarrow> if n = 0 then 3 else n)"
    by (simp add: fresh_agent_def or_default_def)
  have opts: "options (snd (scanPages cfg env picks ?a urls)) = options ?a"
    by (rule scanPages_options)
  have none: "maxWorkers (options ?a) \<le> 0 \<longrightarrow> results (snd (scanPages cfg env picks ?a urls)) = []"
  proof
    assume "maxWorkers (options ?a) \<le> 0"
    then have "scanned cfg env picks ?a urls = ?a\<lparr> totalUrlsToProcess := length urls, browser := True \<rparr>"
      by (rule scanned_no_workers)
    then show "results (snd (scanPages cfg env picks ?a urls)) = []"
      by (simp add: scanPages_results split: option.splits) (simp add: fresh_agent_def)
  qed
  show ?thesis
  proof (cases "ensureOutputDirectory env (options ?a)")
    case None
    then have "new_BulkScannerAgent env opts = Inr ?a"
      by (simp add: new_BulkScannerAgent_def Let_def)
    moreover from None have "dir_exists env (outputDirectory (options ?a))
           \<or> mkdir_failure env (outputDirectory (options ?a)) = None"
      by (auto simp: ensureOutputDirectory_def split: if_splits)
    ultimately show ?thesis using dir nums opts none by simp
  next
    case (Some msg)
    then have "new_BulkScannerAgent env opts = Inl (MkdirFailed msg)"
      by (simp add: new_BulkScannerAgent_def Let_def)
    moreover from Some have "\<not> dir_exists env (outputDirectory (options ?a))
           \<and> mkdir_failure env (outputDirectory (options ?a)) = Some msg"
      by (auto simp: ensureOutputDirectory_def split: if_splits)
    ultimately show ?thesis using dir by simp
  qed
qed

theorem configuration_rejected_only_for_output_directory_witness:
  "outputDirectory (options (fresh_agent opts_negative_workers)) = ''results/bulk-scan-results''
   \<and> new_BulkScannerAgent env_all_fail opts_unwritable_directory
     = Inl (MkdirFailed ''ENOTDIR: not a directory, mkdir'')
   \<and> new_BulkScannerAgent env_all_fail opts_negative_workers = Inr (fresh_agent opts_negative_workers)
   \<and> maxWorkers (options (fresh_agent opts_negative_workers)) = - 1
   \<and> timeout (options (fresh_agent opts_negative_workers)) = 30000
   \<and> retryAttempts (options (fresh_agent opts_negative_workers)) = 3
   \<and> maxWorkers (options (snd (scanPages SCAN_CONFIG env_all_fail first_worker
                                  (fresh_agent opts_negative_workers) [''https://example.com'']))) = - 1
   \<and> results (snd (scanPages SCAN_CONFIG env_all_fail first_worker
                      (fresh_agent opts_negative_workers) [''https://example.com''])) = []"
proof -
  have bad: "mkdir_failure env_all_fail (outputDirectory (options (fresh_agent opts_unwritable_directory)))
               = Some ''ENOTDIR: not a directory, mkdir''"
    by (simp add: env_all_fail_def fresh_agent_def opts_unwritable_directory_def)
  have good: "mkdir_failure env_all_fail (outputDirectory (options (fresh_agent opts_negative_workers))) = None"
    by (simp add: env_all_fail_def fresh_agent_def opts_negative_workers_def)
  have nd: "\<not> dir_exists env_all_fail (outputDirectory (options (fresh_agent opts_unwritable_directory)))"
    by (simp add: env_all_fail_def)
  have w: "maxWorkers (options (fresh_agent opts_negative_workers)) \<le> 0"
    by (simp add: fresh_agent_def opts_negative_workers_def or_default_def)
  have neg: "o_maxWorkers opts_negative_workers = Some (- 1)
             \<and> o_timeout opts_negative_workers = None
             \<and> o_retryAttempts opts_negative_workers = None
             \<and> o_outputDirectory opts_negative_workers = []"
    by (simp add: opts_negative_workers_def)
  show ?thesis
    using configuration_rejected_only_for_output_directory
            [of opts_unwritable_directory env_all_fail SCAN_CONFIG first_worker "[''https://example.com'']"]
          configuration_rejected_only_for_output_directory
            [of opts_negative_workers env_all_fail SCAN_CONFIG first_worker "[''https://example.com'']"]
          bad good nd w neg
    by auto
qed

section \<open>The scanner's categorization against the DecisionAgent's\<close>

lemma foldl_push_to:
  "foldl (\<lambda>res r. push_to (f r) res r) acc rs
   = \<lparr> passed = passed acc @ filter (\<lambda>r. f r = PASSED) rs,
       minorIssues = minorIssues acc @ filter (\<lambda>r. f r = MINOR_ISSUES) rs,
       claudeNeeded = claudeNeeded acc @ filter (\<lambda>r. f r = CLAUDE_NEEDED) rs,
       critical_pages = critical_pages acc @ filter (\<lambda>r. f r = CRITICAL) rs \<rparr>"
proof (induction rs arbitrary: acc)
  case Nil
  then show ?case by simp
next
  case (Cons r rs)
  have "foldl (\<lambda>res r. push_to (f r) res r) acc (r # rs)
          = foldl (\<lambda>res r. push_to (f r) res r) (push_to (f r) acc r) rs"
    by simp
  also have "\<dots> = \<lparr> passed = passed (push_to (f r) acc r) @ filter (\<lambda>r. f r = PASSED) rs,
       minorIssues = minorIssues (push_to (f r) acc r) @ filter (\<lambda>r. f r = MINOR_ISSUES) rs,
       claudeNeeded = claudeNeeded (push_to (f r) acc r) @ filter (\<lambda>r. f r = CLAUDE_NEEDED) rs,
       critical_pages = critical_pages (push_to (f r) acc r) @ filter (\<lambda>r. f r = CRITICAL) rs \<rparr>"
    by (rule Cons.IH)
  also have "\<dots> = \<lparr> passed = passed acc @ filter (\<lambda>r. f r = PASSED) (r # rs),
       minorIssues = minorIssues acc @ filter (\<lambda>r. f r = MINOR_ISSUES) (r # rs),
       claudeNeeded = claudeNeeded acc @ filter (\<lambda>r. f r = CLAUDE_NEEDED) (r # rs),
       critical_pages = critical_pages acc @ filter (\<lambda>r. f r = CRITICAL) (r # rs) \<rparr>"
    by (cases "f r") (simp_all add: push_to_def)
  finally show ?case .
qed

lemma scanner_body:
  "(let result = w_result \<lparr> w_url = url r, w_result = r, needsClaudeAnalysis = needsHumanAnalysis cfg r \<rparr> in
      if truthy (error result) then res\<lparr> critical_pages := critical_pages res @ [result] \<rparr>
      else if length (violations result) = 0 then res\<lparr> passed := passed res @ [result] \<rparr>
      else if needsClaudeAnalysis \<lparr> w_url = url r, w_result = r, needsClaudeAnalysis = needsHumanAnalysis cfg r \<rparr>
           then res\<lparr> claudeNeeded := claudeNeeded res @ [result] \<rparr>
      else if list_ex (\<lambda>v. impact v = serious \<or> impact v = critical) (violations result)
           then res\<lparr> critical_pages := critical_pages res @ [result] \<rparr>
           else res\<lparr> minorIssues := minorIssues res @ [result] \<rparr>)
   = push_to (scanner_category cfg r) res r"
  by (simp add: push_to_def scanner_category_def Let_def)

lemma scanner_categorize_partition:
  "scanner_categorize cfg rs = partition_by (scanner_category cfg) rs"
proof -
  have "scanner_categorize cfg rs
          = foldl (\<lambda>res r. push_to (scanner_category cfg r) res r)
              \<lparr> passed = [], minorIssues = [], claudeNeeded = [], critical_pages = [] \<rparr> rs"
    unfolding scanner_categorize_def categorizeResults_def foldl_map scanner_body ..
  then show ?thesis by (simp add: foldl_push_to partition_by_def)
qed

lemma categorizePages_partition:
  "categorizePages cfg rs = partition_by (\<lambda>r. pd_category (makeDecision cfg r)) rs"
proof -
  have "categorizePages cfg rs
          = foldl (\<lambda>res r. push_to (pd_category (makeDecision cfg r)) res r)
              \<lparr> passed = [], minorIssues = [], claudeNeeded = [], critical_pages = [] \<rparr> rs"
    unfolding categorizePages_def push_to_def ..
  then show ?thesis by (simp add: foldl_push_to partition_by_def)
qed

lemma partition_by_mset:
  "mset (passed (partition_by f rs)) + mset (minorIssues (partition_by f rs))
     + mset (claudeNeeded (partition_by f rs)) + mset (critical_pages (partition_by f rs)) = mset rs"
proof (induction rs)
  case Nil
  then show ?case by (simp add: partition_by_def)
next
  case (Cons r rs)
  then show ?case by (cases "f r") (simp_all add: partition_by_def)
qed

lemma partition_by_eq_iff:
  "partition_by f rs = partition_by g rs \<longleftrightarrow> (\<forall>r \<in> set rs. f r = g r)"
proof
  assume eq: "partition_by f rs = partition_by g rs"
  show "\<forall>r \<in> set rs. f r = g r"
  proof
    fix r assume r: "r \<in> set rs"
    have same: "filter (\<lambda>r. f r = c) rs = filter (\<lambda>r. g r = c) rs" for c
      using eq by (cases c) (simp_all add: partition_by_def)
    from r have m: "r \<in> set (filter (\<lambda>r'. f r' = f r) rs)" by simp
    have "r \<in> set (filter (\<lambda>r'. g r' = f r) rs)"
      using m unfolding same [of "f r"] .
    then show "f r = g r" by simp
  qed
next
  assume "\<forall>r \<in> set rs. f r = g r"
  then have "filter (\<lambda>r. f r = c) rs = filter (\<lambda>r. g r = c) rs" for c
    by (intro filter_cong) simp_all
  then show "partition_by f rs = partition_by g rs"
    by (simp add: partition_by_def)
qed

text \<open>The two flags are the tests the two agents make.\<close>

lemma needsHumanAnalysis_flags:
  "\<not> truthy (error r) \<Longrightarrow> needsHumanAnalysis cfg r = scanner_flags cfg r"
  by (auto simp: needsHumanAnalysis_def scanner_flags_def arr_includes_def list_ex_iff
        filter_empty_conv)

lemma DA_needsHumanAnalysis_flags:
  "(DA_needsHumanAnalysis cfg (violations r) (incomplete r)
      \<or> length (getComplexViolations cfg (violations r)) > 0) = agent_flags cfg r"
  by (auto simp: DA_needsHumanAnalysis_def agent_flags_def getComplexViolations_def arr_includes_def
        visualVerificationRules_def list_ex_iff filter_empty_conv)

lemma scanner_category_flags:
  assumes "\<not> truthy (error r)"
  shows "scanner_category cfg r =
           (if violations r = [] then PASSED
            else if scanner_flags cfg r then CLAUDE_NEEDED
            else if 1 \<le> severe_count r then CRITICAL
            else MINOR_ISSUES)"
proof -
  have "list_ex (\<lambda>v. impact v = serious \<or> impact v = critical) (violations r) = (1 \<le> severe_count r)"
    by (auto simp: severe_count_def list_ex_iff Suc_le_eq length_greater_0_conv filter_empty_conv)
  then show ?thesis
    using assms by (simp add: scanner_category_def needsHumanAnalysis_flags)
qed

lemma makeDecision_flags:
  assumes "\<not> truthy (error r)"
  shows "pd_category (makeDecision cfg r) =
           (if criticalViolationsLimit cfg \<le> int (severe_count r) then CRITICAL
            else if agent_flags cfg r then CLAUDE_NEEDED
            else if violations r = [] then PASSED
            else MINOR_ISSUES)"
  using assms DA_needsHumanAnalysis_flags [of cfg r]
  by (simp add: makeDecision_def Let_def getCriticalViolations_def severe_count_def)

lemma same_category_iff:
  assumes "0 < criticalViolationsLimit cfg"
  shows "scanner_category cfg r = pd_category (makeDecision cfg r) \<longleftrightarrow> same_category cfg r"
proof (cases "truthy (error r)")
  case True
  then show ?thesis by (simp add: scanner_category_def makeDecision_def Let_def same_category_def)
next
  case False
  show ?thesis
  proof (cases "violations r = []")
    case True
    then have "severe_count r = 0"
      and "agent_flags cfg r = (incompleteResultsLimit cfg < int (length (incomplete r)))"
      by (simp_all add: severe_count_def agent_flags_def)
    with True False assms show ?thesis
      by (auto simp: scanner_category_flags makeDecision_flags same_category_def)
  next
    case nonempty: False
    show ?thesis
    proof (cases "criticalViolationsLimit cfg \<le> int (severe_count r)")
      case True
      with assms have "1 \<le> severe_count r" by simp
      with True False nonempty show ?thesis
        by (auto simp: scanner_category_flags makeDecision_flags same_category_def)
    next
      case below: False
      with False nonempty show ?thesis
        by (cases "severe_count r = 0")
           (auto simp: scanner_category_flags makeDecision_flags same_category_def)
    qed
  qed
qed

text \<open>
  C10, as stated, fails. A page without error whose only violation is serious and is no
  complex issue (\<open>image-alt\<close>) is put in the critical list by the scanner and in the
  minor-issues list by the DecisionAgent.
\<close>

theorem categorizations_differ:
  "critical_pages (scanner_categorize SCAN_CONFIG [page_serious_alt]) = [page_serious_alt]
   \<and> critical_pages (categorizePages SCAN_CONFIG [page_serious_alt]) = []
   \<and> minorIssues (categorizePages SCAN_CONFIG [page_serious_alt]) = [page_serious_alt]"
  by (simp add: scanner_categorize_partition categorizePages_partition partition_by_def
        scanner_category_def makeDecision_def Let_def page_serious_alt_def mkResult_def mkViolation_def
        truthy_def needsHumanAnalysis_def SCAN_CONFIG_def getCriticalViolations_def
        getComplexViolations_def DA_needsHumanAnalysis_def visualVerificationRules_def arr_includes_def)

text \<open>
  C10, amended. With a positive critical threshold, the scanner's categorization of a
  list and the DecisionAgent's give the same four lists if and only if every result of
  the list is one on which the two agree: a failed result; a result without violations
  and with at most \<open>incompleteThreshold\<close> incomplete findings; a result at the critical
  volume that the scanner does not flag; a result with violations below the critical
  volume that both flag; or a result with violations, none serious or critical, that
  neither flags. Each of the two categorizations is a partition of its input: every
  result is in exactly one of the four lists.
\<close>

theorem categorizations_agree_iff:
  assumes "0 < criticalViolationsLimit cfg"
  shows "(scanner_categorize cfg rs = categorizePages cfg rs \<longleftrightarrow> (\<forall>r \<in> set rs. same_category cfg r))
         \<and> mset (passed (categorizePages cfg rs)) + mset (minorIssues (categorizePages cfg rs))
             + mset (claudeNeeded (categorizePages cfg rs)) + mset (critical_pages (categorizePages cfg rs))
             = mset rs
         \<and> mset (passed (scanner_categorize cfg rs)) + mset (minorIssues (scanner_categorize cfg rs))
             + mset (claudeNeeded (scanner_categorize cfg rs)) + mset (critical_pages (scanner_categorize cfg rs))
             = mset rs"
proof -
  have "scanner_categorize cfg rs = categorizePages cfg rs
          \<longleftrightarrow> (\<forall>r \<in> set rs. scanner_category cfg r = pd_category (makeDecision cfg r))"
    unfolding scanner_categorize_partition categorizePages_partition by (rule partition_by_eq_iff)
  also have "\<dots> \<longleftrightarrow> (\<forall>r \<in> set rs. same_category cfg r)"
    using same_category_iff [OF assms] by simp
  finally have agree: "scanner_categorize cfg rs = categorizePages cfg rs
                         \<longleftrightarrow> (\<forall>r \<in> set rs. same_category cfg r)" .
  have p1: "mset (passed (categorizePages cfg rs)) + mset (minorIssues (categorizePages cfg rs))
             + mset (claudeNeeded (categorizePages cfg rs)) + mset (critical_pages (categorizePages cfg rs))
             = mset rs"
    unfolding categorizePages_partition by (rule partition_by_mset)
  have p2: "mset (passed (scanner_categorize cfg rs)) + mset (minorIssues (scanner_categorize cfg rs))
             + mset (claudeNeeded (scanner_categorize cfg rs)) + mset (critical_pages (scanner_categorize cfg rs))
             = mset rs"
    unfolding scanner_categorize_partition by (rule partition_by_mset)
  from agree p1 p2 show ?thesis by simp
qed

text \<open>
  One page of each kind on which the two agree, and the lists they are put in; and the
  page of the counterexample, which is of none of these kinds.
\<close>

lemma same_category_examples:
  "same_category SCAN_CONFIG page_failed \<and> same_category SCAN_CONFIG page_clean
   \<and> same_category SCAN_CONFIG page_five_serious_alt \<and> same_category SCAN_CONFIG page_contrast
   \<and> same_category SCAN_CONFIG page_three_minor \<and> \<not> same_category SCAN_CONFIG page_serious_alt"
  by (simp add: same_category_def scanner_flags_def agent_flags_def severe_count_def truthy_def
        SCAN_CONFIG_def page_failed_def page_clean_def page_five_serious_alt_def page_contrast_def
        page_three_minor_def page_serious_alt_def mkResult_def mkViolation_def)

theorem categorizations_agree_iff_witness:
  "scanner_categorize SCAN_CONFIG [page_failed, page_clean, page_five_serious_alt, page_contrast, page_three_minor]
     = categorizePages SCAN_CONFIG [page_failed, page_clean, page_five_serious_alt, page_contrast, page_three_minor]
   \<and> scanner_categorize SCAN_CONFIG [page_clean, page_serious_alt]
       \<noteq> categorizePages SCAN_CONFIG [page_clean, page_serious_alt]
   \<and> mset (passed (categorizePages SCAN_CONFIG [page_clean, page_serious_alt]))
       + mset (minorIssues (categorizePages SCAN_CONFIG [page_clean, page_serious_alt]))
       + mset (claudeNeeded (categorizePages SCAN_CONFIG [page_clean, page_serious_alt]))
       + mset (critical_pages (categorizePages SCAN_CONFIG [page_clean, page_serious_alt]))
       = mset [page_clean, page_serious_alt]"
proof -
  have h: "0 < criticalViolationsLimit SCAN_CONFIG" by (simp add: SCAN_CONFIG_def)
  show ?thesis
    using categorizations_agree_iff
            [OF h, of "[page_failed, page_clean, page_five_serious_alt, page_contrast, page_three_minor]"]
          categorizations_agree_iff [OF h, of "[page_clean, page_serious_alt]"]
          same_category_examples
    by simp
qed

lemma categorize_agreeing_pages:
  "categorizePages SCAN_CONFIG [page_failed, page_clean, page_five_serious_alt, page_contrast, page_three_minor]
     = \<lparr> passed = [page_clean], minorIssues = [page_three_minor], claudeNeeded = [page_contrast],
         critical_pages = [page_failed, page_five_serious_alt] \<rparr>"
  by (simp add: categorizePages_partition partition_by_def makeDecision_flags agent_flags_def
        severe_count_def truthy_def SCAN_CONFIG_def page_failed_def page_clean_def
        page_five_serious_alt_def page_contrast_def page_three_minor_def mkResult_def mkViolation_def
        makeDecision_error)

end
